theory Spec2Isabelle
  imports Complex_Main "HOL-Library.AList" "HOL-Library.Sublist"
begin

section \<open>Vocabulary shared by the two pipelines\<close>

text \<open>
  The repository holds two scripts: \<^verbatim>\<open>product_links_parser.py\<close> (the link collector,
  class \<^verbatim>\<open>ProductLinksParser\<close>) and \<^verbatim>\<open>main_parser.py\<close> (the detail fetcher, class
  \<^verbatim>\<open>ProductDetailsParser\<close>). Both talk to the outside world: a browser or HTTP client, an
  HTML parser, the clock, the disk. The model makes every such call explicit. What the
  outside world answers is a parameter (a record of functions, one per kind of call);
  what the program does to the outside world is a chronological list of events.

  The model starts where the program has its browser session. Exceptions that would
  end the program outside every loop are not part of it: a checkpoint of the link
  collector that \<^verbatim>\<open>json.load\<close> rejects, a navigation error of the link collector's
  browser (\<^verbatim>\<open>driver.get\<close> stands before its \<^verbatim>\<open>try\<close>), a failed write of the link
  collector's checkpoint or result file, and a failure to start a new browser session
  in the detail fetcher.
\<close>

text \<open>The dataclass \<^verbatim>\<open>ProductData\<close>; the \<^verbatim>\<open>attributes\<close> dict keeps its insertion order.\<close>

record ProductData =
  url :: string
  price :: "string option"
  old_price :: "string option"
  description :: "string option"
  attributes :: "(string \<times> string) list"

text \<open>
  The events: \<^verbatim>\<open>time.sleep\<close>, the navigation to a page, the download of an image, the
  message of a failed download attempt, the files written into the folder of a product
  (image, \<^verbatim>\<open>no_image.txt\<close>, \<^verbatim>\<open>data.json\<close>), the detail fetcher's checkpoint written and
  removed, its progress and skip messages, and the link collector's checkpoint and
  result file.
\<close>

datatype event =
    Sleep real
  | GetPage string
  | GetImage string
  | AttemptFailed nat string
  | WriteImage int string string
  | WriteNoImage int
  | WriteData int ProductData
  | WriteCheckpoint int
  | RemoveCheckpoint
  | Visit int string
  | SkipFetch int
  | SkipError int
  | SaveLinksCheckpoint "string list" int
  | SaveResults "string list"

text \<open>Python's \<^verbatim>\<open>str(n)\<close> of an int, used by the f-string that builds a page URL.\<close>

fun digits_of :: "nat \<Rightarrow> string" where
  "digits_of n =
     (if n < 10 then [''0123456789'' ! n]
      else digits_of (n div 10) @ [''0123456789'' ! (n mod 10)])"

declare digits_of.simps [simp del]

definition str_int :: "int \<Rightarrow> string" where
  "str_int i = (if i < 0 then CHR ''-'' # digits_of (nat (- i)) else digits_of (nat i))"

text \<open>
  \<^verbatim>\<open>not html\<close> on an \<^verbatim>\<open>Optional[str]\<close>: true for \<^verbatim>\<open>None\<close> and for the empty string.
\<close>

definition not_html :: "string option \<Rightarrow> bool" where
  "not_html h = (case h of None \<Rightarrow> True | Some t \<Rightarrow> t = [])"


section \<open>The link collector (product\_links\_parser.py)\<close>

text \<open>
  \<^verbatim>\<open>ParserConfig\<close> of the link collector. The fields that only select files, the fetch
  engine or its timeout (\<^verbatim>\<open>output_file\<close>, \<^verbatim>\<open>checkpoint_file\<close>, \<^verbatim>\<open>use_selenium\<close>,
  \<^verbatim>\<open>headless\<close>, \<^verbatim>\<open>timeout\<close>) do not reach the control flow and are left out. The delay
  field is \<^verbatim>\<open>request_delay\<close> in the source; it is named \<open>links_delay\<close> here because the
  detail fetcher's configuration has a field of the same name.
\<close>

record LinksConfig =
  base_url :: string
  start_page :: int
  end_page :: "int option"
  min_links :: int
  max_links :: int
  links_delay :: real

text \<open>
  The outside world of the link collector: what \<^verbatim>\<open>get_page_html\<close> returns for a URL
  (\<open>None\<close> when the wait for the catalog grid or the HTTP request failed and the
  function returned \<^verbatim>\<open>None\<close>), and what BeautifulSoup finds in a page: \<open>None\<close> when
  there is no \<^verbatim>\<open>div.grid__catalog\<close>, otherwise the \<^verbatim>\<open>href\<close> attribute (or \<open>None\<close>) of each
  \<^verbatim>\<open>a.x-product-card__pic\<close> inside it, in document order.
\<close>

record links_world =
  fetch_listing :: "string \<Rightarrow> string option"
  listing_cards :: "string \<Rightarrow> string option list option"

text \<open>The instance attributes that \<^verbatim>\<open>run\<close> mutates.\<close>

record links_state =
  collected_links :: "string list"
  current_page :: int

text \<open>
  The checkpoint file of the link collector: absent (\<open>None\<close>), or a JSON object whose
  \<^verbatim>\<open>links\<close> and \<^verbatim>\<open>current_page\<close> entries may each be missing
  (\<^verbatim>\<open>data.get('links', [])\<close>, \<^verbatim>\<open>data.get('current_page', start_page)\<close>); an entry
  that is present is a list of URLs and an integer, as \<^verbatim>\<open>save_checkpoint\<close> writes them.
\<close>

record links_checkpoint =
  cp_links :: "string list option"
  cp_current_page :: "int option"

definition load_links_checkpoint :: "LinksConfig \<Rightarrow> links_checkpoint option \<Rightarrow> links_state" where
  "load_links_checkpoint cfg file =
     (case file of
        None \<Rightarrow> \<lparr>collected_links = [], current_page = start_page cfg\<rparr>
      | Some data \<Rightarrow>
          \<lparr>collected_links = (case cp_links data of None \<Rightarrow> [] | Some ls \<Rightarrow> ls),
           current_page = (case cp_current_page data of None \<Rightarrow> start_page cfg | Some p \<Rightarrow> p)\<rparr>)"

text \<open>\<^verbatim>\<open>save_checkpoint\<close>: the event of writing the links and the current page.\<close>

definition save_links_checkpoint :: "links_state \<Rightarrow> event list" where
  "save_links_checkpoint s = [SaveLinksCheckpoint (collected_links s) (current_page s)]"

text \<open>\<^verbatim>\<open>get_page_html\<close> of the link collector: sleep, then fetch.\<close>

definition get_listing_html :: "links_world \<Rightarrow> LinksConfig \<Rightarrow> string \<Rightarrow> event list \<times> string option" where
  "get_listing_html w cfg u = ([Sleep (links_delay cfg), GetPage u], fetch_listing w u)"

text \<open>
  The loop over the cards in \<^verbatim>\<open>parse_links_from_html\<close>; \<open>product_links\<close> is the local
  list the source appends to.
\<close>

fun collect_cards :: "string list \<Rightarrow> string list \<Rightarrow> string option list \<Rightarrow> string list" where
  "collect_cards collected product_links [] = product_links"
| "collect_cards collected product_links (a_card # cards) =
     (case a_card of
        None \<Rightarrow> collect_cards collected product_links cards
      | Some href \<Rightarrow>
          if href \<noteq> [] \<and> prefix ''/p/'' href then
            (let full_url = ''https://www.lamoda.ru'' @ href in
             if full_url \<notin> set product_links \<and> full_url \<notin> set collected
             then collect_cards collected (product_links @ [full_url]) cards
             else collect_cards collected product_links cards)
          else collect_cards collected product_links cards)"

definition parse_links_from_html :: "links_world \<Rightarrow> string list \<Rightarrow> string \<Rightarrow> string list" where
  "parse_links_from_html w collected html =
     (case listing_cards w html of
        None \<Rightarrow> []
      | Some product_cards \<Rightarrow> collect_cards collected [] product_cards)"

text \<open>The URL of a page: page 1 is the base URL, any other page carries \<^verbatim>\<open>?page=N\<close>.\<close>

definition page_url :: "LinksConfig \<Rightarrow> int \<Rightarrow> string" where
  "page_url cfg p = (if p = 1 then base_url cfg else base_url cfg @ ''?page='' @ str_int p)"

text \<open>
  The test after the checkpoint is saved:
  \<^verbatim>\<open>len(collected_links) >= min_links and end_page and current_page >= end_page\<close>.
  \<^verbatim>\<open>end_page\<close> is an \<^verbatim>\<open>Optional[int]\<close>, falsy when \<^verbatim>\<open>None\<close> or \<^verbatim>\<open>0\<close>.
\<close>

definition target_page_reached :: "LinksConfig \<Rightarrow> links_state \<Rightarrow> bool" where
  "target_page_reached cfg s =
     (int (length (collected_links s)) \<ge> min_links cfg \<and>
      (case end_page cfg of None \<Rightarrow> False | Some e \<Rightarrow> e \<noteq> 0 \<and> current_page s \<ge> e))"

datatype stop_reason = MaxReached | FetchFailed | NoNewLinks | TargetPage

text \<open>
  The \<^verbatim>\<open>while True\<close> loop of \<^verbatim>\<open>run\<close>. The result is the \<^verbatim>\<open>break\<close> that ended it, the
  attributes at that moment and the events from the current iteration on. The loop
  terminates on every input: an iteration that goes round again has appended at least
  one link, and the first test stops it once \<^verbatim>\<open>max_links\<close> is reached.
\<close>

function links_loop ::
  "links_world \<Rightarrow> LinksConfig \<Rightarrow> links_state \<Rightarrow> stop_reason \<times> links_state \<times> event list" where
  "links_loop w cfg s =
     (if int (length (collected_links s)) \<ge> max_links cfg then (MaxReached, s, [])
      else
        (case get_listing_html w cfg (page_url cfg (current_page s)) of
           (ev, None) \<Rightarrow> (FetchFailed, s, ev)
         | (ev, Some html) \<Rightarrow>
             if html = [] then (FetchFailed, s, ev)
             else
               (case parse_links_from_html w (collected_links s) html of
                  [] \<Rightarrow> (NoNewLinks, s, ev)
                | l # ls \<Rightarrow>
                    (let s1 = s\<lparr>collected_links := collected_links s @ (l # ls)\<rparr>;
                         ev1 = ev @ save_links_checkpoint s1
                     in if target_page_reached cfg s1 then (TargetPage, s1, ev1)
                        else
                          (case links_loop w cfg (s1\<lparr>current_page := current_page s1 + 1\<rparr>) of
                             (r, s2, evs) \<Rightarrow> (r, s2, ev1 @ evs))))))"
  by pat_completeness auto
termination
  by (relation "measure (\<lambda>(w, cfg, s). nat (max_links cfg - int (length (collected_links s))))")
     auto

declare links_loop.simps [simp del]

text \<open>\<^verbatim>\<open>run\<close>: load the checkpoint, loop, write the result file.\<close>

definition run_links ::
  "links_world \<Rightarrow> LinksConfig \<Rightarrow> links_checkpoint option \<Rightarrow> stop_reason \<times> links_state \<times> event list" where
  "run_links w cfg file =
     (case links_loop w cfg (load_links_checkpoint cfg file) of
        (r, s, evs) \<Rightarrow> (r, s, evs @ [SaveResults (collected_links s)]))"


text \<open>
  What follows names parts of the loop for the proofs: the two events of one fetch, the
  answer to it, and the attributes after the new links of a page are appended.
\<close>

definition fetch_events :: "LinksConfig \<Rightarrow> links_state \<Rightarrow> event list" where
  "fetch_events cfg s = [Sleep (links_delay cfg), GetPage (page_url cfg (current_page s))]"

definition fetched :: "links_world \<Rightarrow> LinksConfig \<Rightarrow> links_state \<Rightarrow> string option" where
  "fetched w cfg s = fetch_listing w (page_url cfg (current_page s))"

definition appended :: "links_world \<Rightarrow> links_state \<Rightarrow> string \<Rightarrow> links_state" where
  "appended w s html =
     s\<lparr>collected_links := collected_links s @ parse_links_from_html w (collected_links s) html\<rparr>"

text \<open>
  The checkpoint file of the link collector after a sequence of events: each save
  replaces it. A run that is interrupted leaves the file of the events so far.
\<close>

fun links_checkpoint_after :: "links_checkpoint option \<Rightarrow> event list \<Rightarrow> links_checkpoint option" where
  "links_checkpoint_after file [] = file"
| "links_checkpoint_after file (SaveLinksCheckpoint ls p # evs) =
     links_checkpoint_after (Some \<lparr>cp_links = Some ls, cp_current_page = Some p\<rparr>) evs"
| "links_checkpoint_after file (e # evs) = links_checkpoint_after file evs"


section \<open>The detail fetcher (main\_parser.py)\<close>

text \<open>
  \<^verbatim>\<open>ParserConfig\<close> of the detail fetcher, without the paths, the choice of the fetch
  engine and its timeout.
\<close>

record ParserConfig =
  start_from :: int
  max_products :: "int option"
  request_delay :: real

text \<open>
  What \<^verbatim>\<open>json.load\<close> returns, and the checkpoint file: absent, present but rejected by
  \<^verbatim>\<open>json.load\<close>, or present with a JSON value. A JSON object is the list of the entries
  of the dict that \<^verbatim>\<open>json.load\<close> builds, each key once.
\<close>

datatype json =
    JNull
  | JBool bool
  | JInt int
  | JFloat real
  | JStr string
  | JArr "json list"
  | JObj "(string \<times> json) list"

datatype cp_file = NoFile | Unparsable | Content json

text \<open>
  \<^verbatim>\<open>load_checkpoint\<close>, as a function from the file and the current index to the new
  current index. Every exception is caught and only printed: a value without \<^verbatim>\<open>.get\<close>
  (anything but an object) is such an exception. \<^verbatim>\<open>isinstance(last, int)\<close> holds for
  Python's \<^verbatim>\<open>bool\<close> too, which is a subclass of \<^verbatim>\<open>int\<close> with \<^verbatim>\<open>True + 1 == 2\<close> and
  \<^verbatim>\<open>False + 1 == 1\<close>.
\<close>

definition load_checkpoint :: "cp_file \<Rightarrow> int \<Rightarrow> int" where
  "load_checkpoint file current_index =
     (case file of
        NoFile \<Rightarrow> current_index
      | Unparsable \<Rightarrow> current_index
      | Content data \<Rightarrow>
          (case data of
             JObj entries \<Rightarrow>
               (case map_of entries ''last_index'' of
                  Some (JInt n) \<Rightarrow> n + 1
                | Some (JBool b) \<Rightarrow> (if b then 1 else 0) + 1
                | _ \<Rightarrow> current_index)
           | _ \<Rightarrow> current_index))"

text \<open>\<^verbatim>\<open>save_checkpoint\<close>: the content written, and the event of writing it.\<close>

definition saved_checkpoint :: "int \<Rightarrow> cp_file" where
  "saved_checkpoint index = Content (JObj [(''last_index'', JInt index)])"

definition save_checkpoint :: "int \<Rightarrow> event list" where
  "save_checkpoint index = [WriteCheckpoint index]"

text \<open>The checkpoint file after a sequence of events.\<close>

fun cp_after :: "cp_file \<Rightarrow> event list \<Rightarrow> cp_file" where
  "cp_after file [] = file"
| "cp_after file (WriteCheckpoint i # evs) = cp_after (saved_checkpoint i) evs"
| "cp_after file (RemoveCheckpoint # evs) = cp_after NoFile evs"
| "cp_after file (e # evs) = cp_after file evs"

text \<open>
  \<^verbatim>\<open>xs[:m]\<close> and \<^verbatim>\<open>xs[i]\<close> of Python: a negative number counts from the end, and an
  index out of range raises \<^verbatim>\<open>IndexError\<close> (\<open>None\<close> here).
\<close>

definition py_slice_to :: "'a list \<Rightarrow> int \<Rightarrow> 'a list" where
  "py_slice_to xs m = (if m < 0 then take (nat (int (length xs) + m)) xs else take (nat m) xs)"

definition py_index :: "'a list \<Rightarrow> int \<Rightarrow> 'a option" where
  "py_index xs i =
     (if 0 \<le> i \<and> i < int (length xs) then Some (xs ! nat i)
      else if - int (length xs) \<le> i \<and> i < 0 then Some (xs ! nat (int (length xs) + i))
      else None)"

text \<open>
  \<^verbatim>\<open>load_links\<close>: the input file holds a JSON array of URLs; \<^verbatim>\<open>max_products\<close> truncates
  it unless it is \<^verbatim>\<open>None\<close> or \<^verbatim>\<open>0\<close>.
\<close>

definition load_links :: "ParserConfig \<Rightarrow> string list \<Rightarrow> string list" where
  "load_links cfg input =
     (case max_products cfg of
        None \<Rightarrow> input
      | Some m \<Rightarrow> if m = 0 then input else py_slice_to input m)"

text \<open>
  What BeautifulSoup finds in a product page: the stripped text of each
  \<^verbatim>\<open>span._price_g09b8_11\<close>; the \<^verbatim>\<open>div#reviews-and-questions\<close>, if any, with the text of its
  description and, for each \<^verbatim>\<open>p._item_ajirn_2\<close>, the texts of the name and value spans
  (each may be missing); and for each gallery \<^verbatim>\<open>div\<close> the \<^verbatim>\<open>src\<close> of its first \<^verbatim>\<open>img\<close>.
\<close>

record info_block =
  description_text :: "string option"
  attribute_items :: "(string option \<times> string option) list"

record product_dom =
  price_elements :: "string list"
  info :: "info_block option"
  gallery :: "string option list"

text \<open>
  One attempt to download an image is the body of the inner \<^verbatim>\<open>try\<close>: it raises (the
  request, or the write of the file), or it ends with the status code and body of a
  response; with status 200 the body has been written.
\<close>

datatype attempt = Raised | Response int string

text \<open>
  Where in the outer \<^verbatim>\<open>try\<close> of \<^verbatim>\<open>run\<close> an exception escapes, if anywhere:
  \<^verbatim>\<open>parse_product_page\<close>, \<^verbatim>\<open>os.makedirs\<close>, \<^verbatim>\<open>extract_image_urls\<close>, the creation of
  \<^verbatim>\<open>no_image.txt\<close>, the write of \<^verbatim>\<open>data.json\<close>, or \<^verbatim>\<open>save_checkpoint\<close>, which stands in
  the same \<^verbatim>\<open>try\<close>: there the opening of the checkpoint file for writing raises, and the
  file stays as it was (a failure after the file is opened, which would leave it
  truncated, is not modelled).
\<close>

datatype stage =
  ParsePage | MakeFolder | ExtractImages | WriteSentinel | WriteDataJson | OpenCheckpoint

text \<open>
  The outside world of the detail fetcher, by loop index: what \<^verbatim>\<open>get_page_html\<close>
  returns, the value of \<^verbatim>\<open>random.uniform(0, 2)\<close> drawn before it, the parsed page,
  \<^verbatim>\<open>urljoin\<close>, the extension that \<^verbatim>\<open>os.path.splitext\<close> finds, the outcome of each
  download attempt (by index, position of the candidate and number of the attempt), and
  the stage at which the processing of an index raises.
\<close>

record world =
  page_source :: "int \<Rightarrow> string \<Rightarrow> string option"
  jitter :: "int \<Rightarrow> real"
  soup :: "string \<Rightarrow> product_dom"
  urljoin :: "string \<Rightarrow> string \<Rightarrow> string"
  splitext :: "string \<Rightarrow> string"
  image_try :: "int \<Rightarrow> nat \<Rightarrow> nat \<Rightarrow> attempt"
  raises :: "int \<Rightarrow> stage option"

text \<open>\<^verbatim>\<open>get_page_html\<close> of the detail fetcher: sleep with jitter, then fetch.\<close>

definition get_page_html :: "world \<Rightarrow> ParserConfig \<Rightarrow> int \<Rightarrow> string \<Rightarrow> event list \<times> string option" where
  "get_page_html w cfg idx u =
     ([Sleep (request_delay cfg + jitter w idx), GetPage u], page_source w idx u)"

text \<open>\<^verbatim>\<open>parse_product_page\<close>. Assigning to a key of a dict keeps the place of the key.\<close>

definition add_attribute ::
  "string option \<times> string option \<Rightarrow> (string \<times> string) list \<Rightarrow> (string \<times> string) list" where
  "add_attribute item attrs =
     (case item of
        (Some name, Some val) \<Rightarrow> AList.update name val attrs
      | _ \<Rightarrow> attrs)"

definition parse_product_page :: "world \<Rightarrow> string \<Rightarrow> string \<Rightarrow> ProductData" where
  "parse_product_page w html u =
     (let dom = soup w html;
          pes = price_elements dom;
          pd0 = \<lparr>url = u, price = None, old_price = None, description = None, attributes = []\<rparr>;
          pd1 = (if length pes \<ge> 2 then pd0\<lparr>old_price := Some (pes ! 0), price := Some (pes ! 1)\<rparr>
                 else if pes \<noteq> [] then pd0\<lparr>price := Some (pes ! 0)\<rparr>
                 else pd0)
      in case info dom of
           None \<Rightarrow> pd1
         | Some block \<Rightarrow>
             (let pd2 = (case description_text block of
                           None \<Rightarrow> pd1
                         | Some d \<Rightarrow> pd1\<lparr>description := Some d\<rparr>)
              in pd2\<lparr>attributes := fold add_attribute (attribute_items block) (attributes pd2)\<rparr>))"

text \<open>\<^verbatim>\<open>extract_image_urls\<close>: a gallery without an image or with an empty \<^verbatim>\<open>src\<close> is skipped.\<close>

fun gallery_urls :: "(string \<Rightarrow> string \<Rightarrow> string) \<Rightarrow> string \<Rightarrow> string option list \<Rightarrow> string list" where
  "gallery_urls join base [] = []"
| "gallery_urls join base (g # gs) =
     (case g of
        None \<Rightarrow> gallery_urls join base gs
      | Some src \<Rightarrow>
          if src = [] then gallery_urls join base gs
          else join base src # gallery_urls join base gs)"

definition extract_image_urls :: "world \<Rightarrow> string \<Rightarrow> string \<Rightarrow> string list" where
  "extract_image_urls w html base = gallery_urls (urljoin w) base (gallery (soup w html))"

text \<open>
  The inner loop of \<^verbatim>\<open>save_product\<close>, \<^verbatim>\<open>for attempt in range(3)\<close>, for the candidate at
  position \<open>k\<close>: the events and whether the image was saved. The pause stands in the
  \<^verbatim>\<open>except\<close> branch only.
\<close>

definition image_ext :: "world \<Rightarrow> string \<Rightarrow> string" where
  "image_ext w img_url = (if splitext w img_url = [] then ''.jpg'' else splitext w img_url)"

fun try_download :: "world \<Rightarrow> int \<Rightarrow> nat \<Rightarrow> string \<Rightarrow> nat list \<Rightarrow> event list \<times> bool" where
  "try_download w idx k img_url [] = ([], False)"
| "try_download w idx k img_url (n # ns) =
     (case image_try w idx k n of
        Raised \<Rightarrow>
          (case try_download w idx k img_url ns of
             (evs, saved) \<Rightarrow>
               (GetImage img_url # AttemptFailed (n + 1) img_url # Sleep 1 # evs, saved))
      | Response status content \<Rightarrow>
          if status = 200
          then ([GetImage img_url, WriteImage idx (image_ext w img_url) content], True)
          else
            (case try_download w idx k img_url ns of
               (evs, saved) \<Rightarrow> (GetImage img_url # evs, saved)))"

text \<open>The outer loop, \<^verbatim>\<open>for img_url in img_urls\<close>, left as soon as an image is saved.\<close>

fun download_first :: "world \<Rightarrow> int \<Rightarrow> nat \<Rightarrow> string list \<Rightarrow> event list \<times> bool" where
  "download_first w idx k [] = ([], False)"
| "download_first w idx k (img_url # img_urls) =
     (case try_download w idx k img_url [0, 1, 2] of
        (evs, saved) \<Rightarrow>
          if saved then (evs, True)
          else
            (case download_first w idx (Suc k) img_urls of
               (evs2, saved2) \<Rightarrow> (evs @ evs2, saved2)))"

text \<open>\<^verbatim>\<open>save_product\<close>: the events, and whether an exception left it.\<close>

definition save_product :: "world \<Rightarrow> int \<Rightarrow> ProductData \<Rightarrow> string \<Rightarrow> event list \<times> bool" where
  "save_product w idx pd html =
     (if raises w idx = Some MakeFolder then ([], True)
      else if raises w idx = Some ExtractImages then ([], True)
      else
        (case download_first w idx 0 (extract_image_urls w html (url pd)) of
           (evs, saved) \<Rightarrow>
             if \<not> saved \<and> raises w idx = Some WriteSentinel then (evs, True)
             else
               (let evs1 = evs @ (if saved then [] else [WriteNoImage idx])
                in if raises w idx = Some WriteDataJson then (evs1, True)
                   else (evs1 @ [WriteData idx pd], False))))"

text \<open>
  The \<^verbatim>\<open>try\<close> block of \<^verbatim>\<open>run\<close> (parse, save, checkpoint): the events, and whether the
  \<^verbatim>\<open>except\<close> branch was taken.
\<close>

definition try_block :: "world \<Rightarrow> int \<Rightarrow> string \<Rightarrow> string \<Rightarrow> event list \<times> bool" where
  "try_block w idx u html =
     (if raises w idx = Some ParsePage then ([], True)
      else
        (case save_product w idx (parse_product_page w html u) html of
           (evs, raised) \<Rightarrow>
             if raised then (evs, True)
             else if raises w idx = Some OpenCheckpoint then (evs, True)
             else (evs @ save_checkpoint idx, False)))"

text \<open>The body of the \<^verbatim>\<open>for\<close> loop of \<^verbatim>\<open>run\<close> for index \<open>idx\<close> with URL \<open>u\<close>.\<close>

definition process_index :: "world \<Rightarrow> ParserConfig \<Rightarrow> int \<Rightarrow> string \<Rightarrow> event list" where
  "process_index w cfg idx u =
     (case get_page_html w cfg idx u of
        (ev, html) \<Rightarrow>
          Visit idx u # ev @
          (if not_html html then [SkipFetch idx]
           else
             (case try_block w idx u (case html of None \<Rightarrow> [] | Some t \<Rightarrow> t) of
                (evs, raised) \<Rightarrow> evs @ (if raised then [SkipError idx] else []))))"

text \<open>
  The \<^verbatim>\<open>for\<close> loop over \<^verbatim>\<open>range(current_index, total)\<close>: the events, and whether
  \<^verbatim>\<open>product_links[idx]\<close> raised \<^verbatim>\<open>IndexError\<close>, which nothing catches.
\<close>

fun run_loop :: "world \<Rightarrow> ParserConfig \<Rightarrow> string list \<Rightarrow> int list \<Rightarrow> event list \<times> bool" where
  "run_loop w cfg product_links [] = ([], False)"
| "run_loop w cfg product_links (idx # idxs) =
     (case py_index product_links idx of
        None \<Rightarrow> ([], True)
      | Some u \<Rightarrow>
          (case run_loop w cfg product_links idxs of
             (evs, crashed) \<Rightarrow> (process_index w cfg idx u @ evs, crashed)))"

datatype outcome = Completed | Crashed

text \<open>
  \<^verbatim>\<open>run\<close>: load the links and the checkpoint, loop, and remove the checkpoint file if
  there is one.
\<close>

definition run :: "world \<Rightarrow> ParserConfig \<Rightarrow> string list \<Rightarrow> cp_file \<Rightarrow> outcome \<times> event list" where
  "run w cfg input file =
     (let product_links = load_links cfg input;
          current_index = load_checkpoint file (start_from cfg);
          total = int (length product_links)
      in case run_loop w cfg product_links [current_index..total - 1] of
           (evs, crashed) \<Rightarrow>
             if crashed then (Crashed, evs)
             else (Completed, evs @ (if cp_after file evs \<noteq> NoFile then [RemoveCheckpoint] else [])))"



section \<open>Notions that the properties are stated with\<close>

text \<open>
  First-seen order: the elements of a list without repetitions, each at the place of
  its first occurrence. \<open>first_seen_from seen xs\<close> continues from the elements
  \<open>seen\<close> so far.
\<close>

fun first_seen_from :: "'a list \<Rightarrow> 'a list \<Rightarrow> 'a list" where
  "first_seen_from seen [] = seen"
| "first_seen_from seen (x # xs) =
     (if x \<in> set seen then first_seen_from seen xs else first_seen_from (seen @ [x]) xs)"

definition first_seen :: "'a list \<Rightarrow> 'a list" where
  "first_seen xs = first_seen_from [] xs"

text \<open>
  Every product URL that a listing page shows, in document order and with repetitions;
  the URLs shown by the page behind a URL; and the URLs shown by all the pages that a
  sequence of events fetched, in the order of the fetches.
\<close>

fun card_urls :: "string option list \<Rightarrow> string list" where
  "card_urls [] = []"
| "card_urls (a_card # cards) =
     (case a_card of
        None \<Rightarrow> card_urls cards
      | Some href \<Rightarrow>
          if href \<noteq> [] \<and> prefix ''/p/'' href
          then (''https://www.lamoda.ru'' @ href) # card_urls cards
          else card_urls cards)"

definition page_links :: "links_world \<Rightarrow> string \<Rightarrow> string list" where
  "page_links w u =
     (case fetch_listing w u of
        None \<Rightarrow> []
      | Some html \<Rightarrow>
          if html = [] then []
          else (case listing_cards w html of None \<Rightarrow> [] | Some cards \<Rightarrow> card_urls cards))"

fun discovered :: "links_world \<Rightarrow> event list \<Rightarrow> string list" where
  "discovered w [] = []"
| "discovered w (GetPage u # evs) = page_links w u @ discovered w evs"
| "discovered w (e # evs) = discovered w evs"

text \<open>The pages fetched, the images requested and the indices visited, in order.\<close>

fun page_gets :: "event list \<Rightarrow> string list" where
  "page_gets [] = []"
| "page_gets (GetPage u # evs) = u # page_gets evs"
| "page_gets (e # evs) = page_gets evs"

fun image_gets :: "event list \<Rightarrow> string list" where
  "image_gets [] = []"
| "image_gets (GetImage u # evs) = u # image_gets evs"
| "image_gets (e # evs) = image_gets evs"

fun visited :: "event list \<Rightarrow> int list" where
  "visited [] = []"
| "visited (Visit i u # evs) = i # visited evs"
| "visited (e # evs) = visited evs"

text \<open>
  For each page fetch of a sequence of events, the duration of the sleep that stands
  immediately before it, or \<open>None\<close> when no sleep does.
\<close>

definition is_page_get :: "event \<Rightarrow> bool" where
  "is_page_get e = (case e of GetPage u \<Rightarrow> True | _ \<Rightarrow> False)"

definition sleep_of :: "event option \<Rightarrow> real option" where
  "sleep_of prev = (case prev of Some (Sleep d) \<Rightarrow> Some d | _ \<Rightarrow> None)"

fun pacing_after :: "event option \<Rightarrow> event list \<Rightarrow> real option list" where
  "pacing_after prev [] = []"
| "pacing_after prev (e # evs) =
     (if is_page_get e then [sleep_of prev] else []) @ pacing_after (Some e) evs"

definition pacing :: "event list \<Rightarrow> real option list" where
  "pacing evs = pacing_after None evs"

text \<open>
  More of what a sequence of events holds: the indices whose checkpoint was written,
  the indices skipped, the pauses, the images and the no-image markers written.
\<close>

fun checkpoints_written :: "event list \<Rightarrow> int list" where
  "checkpoints_written [] = []"
| "checkpoints_written (WriteCheckpoint i # evs) = i # checkpoints_written evs"
| "checkpoints_written (e # evs) = checkpoints_written evs"

fun skipped :: "event list \<Rightarrow> int list" where
  "skipped [] = []"
| "skipped (SkipFetch i # evs) = i # skipped evs"
| "skipped (SkipError i # evs) = i # skipped evs"
| "skipped (e # evs) = skipped evs"

fun sleeps :: "event list \<Rightarrow> real list" where
  "sleeps [] = []"
| "sleeps (Sleep d # evs) = d # sleeps evs"
| "sleeps (e # evs) = sleeps evs"

fun image_writes :: "event list \<Rightarrow> (int \<times> string \<times> string) list" where
  "image_writes [] = []"
| "image_writes (WriteImage i x b # evs) = (i, x, b) # image_writes evs"
| "image_writes (e # evs) = image_writes evs"

fun sentinels :: "event list \<Rightarrow> int list" where
  "sentinels [] = []"
| "sentinels (WriteNoImage i # evs) = i # sentinels evs"
| "sentinels (e # evs) = sentinels evs"

text \<open>The events that \<^verbatim>\<open>save_product\<close> can produce.\<close>

definition product_event :: "event \<Rightarrow> bool" where
  "product_event e =
     (case e of
        Sleep d \<Rightarrow> True
      | GetImage u \<Rightarrow> True
      | AttemptFailed n u \<Rightarrow> True
      | WriteImage i x b \<Rightarrow> True
      | WriteNoImage i \<Rightarrow> True
      | WriteData i pd \<Rightarrow> True
      | _ \<Rightarrow> False)"

text \<open>
  The download policy in words. Of the attempts \<open>ns\<close> on one candidate, made in order
  until one answers with status 200: the body of that answer, if there is one; how many
  attempts are made; how many of them raise.
\<close>

fun first_200 :: "(nat \<Rightarrow> attempt) \<Rightarrow> nat list \<Rightarrow> string option" where
  "first_200 outcome [] = None"
| "first_200 outcome (n # ns) =
     (case outcome n of
        Raised \<Rightarrow> first_200 outcome ns
      | Response status body \<Rightarrow> if status = 200 then Some body else first_200 outcome ns)"

fun attempts_made :: "(nat \<Rightarrow> attempt) \<Rightarrow> nat list \<Rightarrow> nat" where
  "attempts_made outcome [] = 0"
| "attempts_made outcome (n # ns) =
     (case outcome n of
        Raised \<Rightarrow> Suc (attempts_made outcome ns)
      | Response status body \<Rightarrow> if status = 200 then 1 else Suc (attempts_made outcome ns))"

fun raised_made :: "(nat \<Rightarrow> attempt) \<Rightarrow> nat list \<Rightarrow> nat" where
  "raised_made outcome [] = 0"
| "raised_made outcome (n # ns) =
     (case outcome n of
        Raised \<Rightarrow> Suc (raised_made outcome ns)
      | Response status body \<Rightarrow> if status = 200 then 0 else raised_made outcome ns)"

text \<open>
  Over the candidates from position \<open>k\<close> on, each tried three times at most and the
  next one only when none of the three tries gave status 200: the first candidate that
  succeeds, with the body received; the sequence of requests; the number of tries that
  raise.
\<close>

fun first_image :: "world \<Rightarrow> int \<Rightarrow> nat \<Rightarrow> string list \<Rightarrow> (string \<times> string) option" where
  "first_image w idx k [] = None"
| "first_image w idx k (u # us) =
     (case first_200 (image_try w idx k) [0, 1, 2] of
        Some body \<Rightarrow> Some (u, body)
      | None \<Rightarrow> first_image w idx (Suc k) us)"

fun expected_gets :: "world \<Rightarrow> int \<Rightarrow> nat \<Rightarrow> string list \<Rightarrow> string list" where
  "expected_gets w idx k [] = []"
| "expected_gets w idx k (u # us) =
     replicate (attempts_made (image_try w idx k) [0, 1, 2]) u @
     (case first_200 (image_try w idx k) [0, 1, 2] of
        Some body \<Rightarrow> []
      | None \<Rightarrow> expected_gets w idx (Suc k) us)"

fun expected_pauses :: "world \<Rightarrow> int \<Rightarrow> nat \<Rightarrow> string list \<Rightarrow> nat" where
  "expected_pauses w idx k [] = 0"
| "expected_pauses w idx k (u # us) =
     raised_made (image_try w idx k) [0, 1, 2] +
     (case first_200 (image_try w idx k) [0, 1, 2] of
        Some body \<Rightarrow> 0
      | None \<Rightarrow> expected_pauses w idx (Suc k) us)"

text \<open>
  The page of index \<open>idx\<close> with URL \<open>u\<close> is fetched, parsed and saved when the fetch
  returns a non-empty page and neither the parse nor the save raises. It is processed
  without failure when, moreover, the write of its checkpoint does not raise.
\<close>

definition saved_ok :: "world \<Rightarrow> int \<Rightarrow> string \<Rightarrow> bool" where
  "saved_ok w idx u =
     (case page_source w idx u of
        None \<Rightarrow> False
      | Some html \<Rightarrow>
          html \<noteq> [] \<and> raises w idx \<noteq> Some ParsePage \<and>
          \<not> snd (save_product w idx (parse_product_page w html u) html))"

definition processed_ok :: "world \<Rightarrow> int \<Rightarrow> string \<Rightarrow> bool" where
  "processed_ok w idx u = (saved_ok w idx u \<and> raises w idx \<noteq> Some OpenCheckpoint)"

definition item_succeeds :: "world \<Rightarrow> string list \<Rightarrow> int \<Rightarrow> bool" where
  "item_succeeds w product_links idx =
     (case py_index product_links idx of
        None \<Rightarrow> False
      | Some u \<Rightarrow> processed_ok w idx u)"

text \<open>
  A checkpoint file that exists but gives no index: \<^verbatim>\<open>json.load\<close> rejects it, or its
  value is not an object, or the object has no \<^verbatim>\<open>last_index\<close>, or \<^verbatim>\<open>last_index\<close> is
  neither an integer nor a boolean.
\<close>

definition unusable :: "cp_file \<Rightarrow> bool" where
  "unusable file =
     (case file of
        NoFile \<Rightarrow> False
      | Unparsable \<Rightarrow> True
      | Content data \<Rightarrow>
          (case data of
             JObj entries \<Rightarrow>
               (case map_of entries ''last_index'' of
                  None \<Rightarrow> True
                | Some (JInt n) \<Rightarrow> False
                | Some (JBool b) \<Rightarrow> False
                | Some other \<Rightarrow> True)
           | _ \<Rightarrow> True))"


section \<open>Sample inputs\<close>

text \<open>A product page with the given price elements, and a world that serves it.\<close>

definition sample_dom :: "string list \<Rightarrow> product_dom" where
  "sample_dom prices =
     \<lparr>price_elements = prices,
      info = Some \<lparr>description_text = Some ''dress'',
                   attribute_items = [(Some ''size'', Some ''M'')]\<rparr>,
      gallery = [Some ''/img/1.jpg'']\<rparr>"

definition sample_world :: "string list \<Rightarrow> world" where
  "sample_world prices =
     \<lparr>page_source = (\<lambda>idx u. Some ''<html>''),
      jitter = (\<lambda>idx. 1),
      soup = (\<lambda>html. sample_dom prices),
      urljoin = (\<lambda>base src. base @ src),
      splitext = (\<lambda>u. ''.jpg''),
      image_try = (\<lambda>idx k n. Response 200 ''bytes''),
      raises = (\<lambda>idx. None)\<rparr>"

text \<open>
  A catalog of two listing pages; the fetch of a third page fails. The first page shows
  one product twice, and a link that is not a product.
\<close>

definition sample_links_config :: LinksConfig where
  "sample_links_config =
     \<lparr>base_url = ''https://shop/c/'', start_page = 1, end_page = None,
      min_links = 50, max_links = 1000, links_delay = 2\<rparr>"

definition sample_links_world :: links_world where
  "sample_links_world =
     \<lparr>fetch_listing =
        (\<lambda>u. if u = ''https://shop/c/'' then Some ''p1''
             else if u = ''https://shop/c/?page=2'' then Some ''p2''
             else None),
      listing_cards =
        (\<lambda>html. if html = ''p1'' then Some [Some ''/p/a'', Some ''/p/b'', Some ''/p/a'', None, Some ''/x'']
                else if html = ''p2'' then Some [Some ''/p/b'', Some ''/p/c'']
                else None)\<rparr>"


text \<open>
  A configuration of the detail fetcher, and three variants of the sample world: one
  where no page can be fetched, one where the first try for an image raises, the second
  answers 500 and the third 200, and one where every try for an image answers 404.
\<close>

definition sample_config :: ParserConfig where
  "sample_config = \<lparr>start_from = 0, max_products = None, request_delay = 2\<rparr>"

definition offline_world :: world where
  "offline_world = (sample_world [])\<lparr>page_source := (\<lambda>idx u. None)\<rparr>"

definition flaky_world :: world where
  "flaky_world =
     (sample_world [])\<lparr>image_try :=
        (\<lambda>idx k n. if n = 0 then Raised
                   else if n = 1 then Response 500 []
                   else Response 200 ''bytes'')\<rparr>"

definition no_image_world :: world where
  "no_image_world = (sample_world [])\<lparr>image_try := (\<lambda>idx k n. Response 404 [])\<rparr>"

text \<open>A variant where the checkpoint file cannot be opened for writing.\<close>

definition locked_checkpoint_world :: world where
  "locked_checkpoint_world = (sample_world [])\<lparr>raises := (\<lambda>idx. Some OpenCheckpoint)\<rparr>"


section \<open>The link collector: the loop, case by case\<close>

lemma first_seen_from_append:
  "first_seen_from a (xs @ ys) = first_seen_from (first_seen_from a xs) ys"
  by (induction xs arbitrary: a) auto

lemma distinct_first_seen_from: "distinct a \<Longrightarrow> distinct (first_seen_from a xs)"
  by (induction xs arbitrary: a) auto

lemma set_first_seen_from: "set (first_seen_from a xs) = set a \<union> set xs"
  by (induction xs arbitrary: a) auto

lemma first_seen_from_distinct: "distinct (a @ c) \<Longrightarrow> first_seen_from a c = a @ c"
  by (induction c arbitrary: a) auto

lemma first_seen_from_known: "set xs \<subseteq> set a \<Longrightarrow> first_seen_from a xs = a"
  by (induction xs arbitrary: a) auto

text \<open>
  \<open>first_seen\<close> is what its name says: it keeps every element once, and an element
  added at the end is kept there exactly when it has not occurred before.
\<close>

lemma distinct_first_seen: "distinct (first_seen xs)"
  by (simp add: first_seen_def distinct_first_seen_from)

lemma set_first_seen: "set (first_seen xs) = set xs"
  by (simp add: first_seen_def set_first_seen_from)

lemma first_seen_snoc:
  "first_seen (xs @ [x]) = (if x \<in> set xs then first_seen xs else first_seen xs @ [x])"
  by (simp add: first_seen_def first_seen_from_append set_first_seen_from)

lemma collect_cards_first_seen:
  "set pl \<inter> set c = {} \<Longrightarrow> c @ collect_cards c pl cards = first_seen_from (c @ pl) (card_urls cards)"
  by (induction cards arbitrary: pl) (auto simp: Let_def split: option.splits)

lemma discovered_append: "discovered w (xs @ ys) = discovered w xs @ discovered w ys"
  by (induction w xs rule: discovered.induct) auto


lemma links_loop_max:
  "max_links cfg \<le> int (length (collected_links s)) \<Longrightarrow> links_loop w cfg s = (MaxReached, s, [])"
  by (simp add: links_loop.simps [of w cfg s])

lemma links_loop_fetch_none:
  "\<not> max_links cfg \<le> int (length (collected_links s)) \<Longrightarrow> fetched w cfg s = None \<Longrightarrow>
   links_loop w cfg s = (FetchFailed, s, fetch_events cfg s)"
  by (simp add: links_loop.simps [of w cfg s] get_listing_html_def fetched_def fetch_events_def)

lemma links_loop_fetch_empty:
  "\<not> max_links cfg \<le> int (length (collected_links s)) \<Longrightarrow> fetched w cfg s = Some [] \<Longrightarrow>
   links_loop w cfg s = (FetchFailed, s, fetch_events cfg s)"
  by (simp add: links_loop.simps [of w cfg s] get_listing_html_def fetched_def fetch_events_def)

lemma links_loop_no_new:
  "\<not> max_links cfg \<le> int (length (collected_links s)) \<Longrightarrow> fetched w cfg s = Some html \<Longrightarrow>
   html \<noteq> [] \<Longrightarrow> parse_links_from_html w (collected_links s) html = [] \<Longrightarrow>
   links_loop w cfg s = (NoNewLinks, s, fetch_events cfg s)"
  by (simp add: links_loop.simps [of w cfg s] get_listing_html_def fetched_def fetch_events_def)

lemma links_loop_target:
  "\<not> max_links cfg \<le> int (length (collected_links s)) \<Longrightarrow> fetched w cfg s = Some html \<Longrightarrow>
   html \<noteq> [] \<Longrightarrow> parse_links_from_html w (collected_links s) html \<noteq> [] \<Longrightarrow>
   target_page_reached cfg (appended w s html) \<Longrightarrow>
   links_loop w cfg s =
     (TargetPage, appended w s html, fetch_events cfg s @ save_links_checkpoint (appended w s html))"
  by (cases "parse_links_from_html w (collected_links s) html")
     (simp_all add: links_loop.simps [of w cfg s] get_listing_html_def fetched_def
        fetch_events_def appended_def Let_def)

lemma links_loop_continue:
  "\<not> max_links cfg \<le> int (length (collected_links s)) \<Longrightarrow> fetched w cfg s = Some html \<Longrightarrow>
   html \<noteq> [] \<Longrightarrow> parse_links_from_html w (collected_links s) html \<noteq> [] \<Longrightarrow>
   \<not> target_page_reached cfg (appended w s html) \<Longrightarrow>
   links_loop w cfg s =
     (case links_loop w cfg ((appended w s html)\<lparr>current_page := current_page s + 1\<rparr>) of
        (r, s2, evs) \<Rightarrow>
          (r, s2, fetch_events cfg s @ save_links_checkpoint (appended w s html) @ evs))"
  by (cases "parse_links_from_html w (collected_links s) html")
     (simp_all add: links_loop.simps [of w cfg s] get_listing_html_def fetched_def
        fetch_events_def appended_def Let_def)

lemma links_loop_induct [case_names step]:
  assumes "\<And>s. (\<And>html. \<not> max_links cfg \<le> int (length (collected_links s)) \<Longrightarrow>
              fetched w cfg s = Some html \<Longrightarrow> html \<noteq> [] \<Longrightarrow>
              parse_links_from_html w (collected_links s) html \<noteq> [] \<Longrightarrow>
              \<not> target_page_reached cfg (appended w s html) \<Longrightarrow>
              P ((appended w s html)\<lparr>current_page := current_page s + 1\<rparr>)) \<Longrightarrow> P s"
  shows "P s"
  using assms
proof (induction w cfg s rule: links_loop.induct)
  case (1 w cfg s)
  show ?case
  proof (rule "1.prems")
    fix html
    assume a: "\<not> max_links cfg \<le> int (length (collected_links s))" "fetched w cfg s = Some html"
      "html \<noteq> []" "parse_links_from_html w (collected_links s) html \<noteq> []"
      "\<not> target_page_reached cfg (appended w s html)"
    obtain l ls where n: "parse_links_from_html w (collected_links s) html = l # ls"
      using a(4) by (cases "parse_links_from_html w (collected_links s) html") auto
    have g: "(fetch_events cfg s, Some html) = get_listing_html w cfg (page_url cfg (current_page s))"
      using a(2) by (simp add: get_listing_html_def fetched_def fetch_events_def)
    have t: "\<not> target_page_reached cfg (s\<lparr>collected_links := collected_links s @ l # ls\<rparr>)"
      using a(5) by (simp add: appended_def n)
    have "P (s\<lparr>collected_links := collected_links s @ l # ls\<rparr>
            \<lparr>current_page := current_page (s\<lparr>collected_links := collected_links s @ l # ls\<rparr>) + 1\<rparr>)"
      by (rule "1.IH" [OF a(1) g refl a(3) n refl refl t "1.prems"])
    then show "P ((appended w s html)\<lparr>current_page := current_page s + 1\<rparr>)"
      by (simp add: appended_def n)
  qed
qed


lemma links_loop_cases [case_names max fail nonew target continue]:
  obtains
    (max) "max_links cfg \<le> int (length (collected_links s))"
      "links_loop w cfg s = (MaxReached, s, [])"
  | (fail) "\<not> max_links cfg \<le> int (length (collected_links s))"
      "not_html (fetched w cfg s)"
      "links_loop w cfg s = (FetchFailed, s, fetch_events cfg s)"
  | (nonew) html where "\<not> max_links cfg \<le> int (length (collected_links s))"
      "fetched w cfg s = Some html" "html \<noteq> []"
      "parse_links_from_html w (collected_links s) html = []"
      "links_loop w cfg s = (NoNewLinks, s, fetch_events cfg s)"
  | (target) html where "\<not> max_links cfg \<le> int (length (collected_links s))"
      "fetched w cfg s = Some html" "html \<noteq> []"
      "parse_links_from_html w (collected_links s) html \<noteq> []"
      "target_page_reached cfg (appended w s html)"
      "links_loop w cfg s =
         (TargetPage, appended w s html,
          fetch_events cfg s @ save_links_checkpoint (appended w s html))"
  | (continue) html where "\<not> max_links cfg \<le> int (length (collected_links s))"
      "fetched w cfg s = Some html" "html \<noteq> []"
      "parse_links_from_html w (collected_links s) html \<noteq> []"
      "\<not> target_page_reached cfg (appended w s html)"
      "links_loop w cfg s =
         (case links_loop w cfg ((appended w s html)\<lparr>current_page := current_page s + 1\<rparr>) of
            (r, s2, evs) \<Rightarrow>
              (r, s2, fetch_events cfg s @ save_links_checkpoint (appended w s html) @ evs))"
proof (cases "max_links cfg \<le> int (length (collected_links s))")
  case True
  then show ?thesis using max links_loop_max by blast
next
  case nmax: False
  show ?thesis
  proof (cases "fetched w cfg s")
    case None
    then show ?thesis using fail nmax links_loop_fetch_none by (simp add: not_html_def)
  next
    case (Some html)
    show ?thesis
    proof (cases "html = []")
      case True
      then show ?thesis using fail nmax Some links_loop_fetch_empty by (simp add: not_html_def)
    next
      case ne: False
      show ?thesis
      proof (cases "parse_links_from_html w (collected_links s) html = []")
        case True
        then show ?thesis using nonew nmax Some ne links_loop_no_new by blast
      next
        case new: False
        show ?thesis
        proof (cases "target_page_reached cfg (appended w s html)")
          case True
          then show ?thesis using target nmax Some ne new links_loop_target by blast
        next
          case False
          then show ?thesis using continue nmax Some ne new links_loop_continue by blast
        qed
      qed
    qed
  qed
qed

lemma discovered_fetch_events: "discovered w (fetch_events cfg s) = page_links w (page_url cfg (current_page s))"
  by (simp add: fetch_events_def)

lemma discovered_save: "discovered w (save_links_checkpoint s) = []"
  by (simp add: save_links_checkpoint_def)

lemma appended_first_seen:
  assumes "fetched w cfg s = Some html" "html \<noteq> []"
  shows "collected_links (appended w s html) =
         first_seen_from (collected_links s) (page_links w (page_url cfg (current_page s)))"
proof (cases "listing_cards w html")
  case None
  then show ?thesis using assms
    by (simp add: appended_def parse_links_from_html_def page_links_def fetched_def)
next
  case (Some cards)
  then show ?thesis using assms collect_cards_first_seen [of "[]" "collected_links s" cards]
    by (simp add: appended_def parse_links_from_html_def page_links_def fetched_def)
qed

lemma not_html_page_links: "not_html (fetched w cfg s) \<Longrightarrow> page_links w (page_url cfg (current_page s)) = []"
  by (auto simp: not_html_def fetched_def page_links_def split: option.splits)

lemma links_loop_first_seen:
  "links_loop w cfg s = (r, s', evs) \<Longrightarrow>
   collected_links s' = first_seen_from (collected_links s) (discovered w evs)"
proof (induction s arbitrary: r s' evs rule: links_loop_induct [where w = w and cfg = cfg])
  case (step s)
  show ?case
  proof (cases rule: links_loop_cases [of cfg s w])
    case max
    then show ?thesis using step.prems by simp
  next
    case fail
    then show ?thesis using step.prems by (auto simp: discovered_fetch_events not_html_page_links)
  next
    case (nonew html)
    have "collected_links (appended w s html) = collected_links s"
      using nonew by (simp add: appended_def)
    then show ?thesis using nonew step.prems appended_first_seen [OF nonew(2,3)]
      by (auto simp: discovered_fetch_events)
  next
    case (target html)
    then show ?thesis using step.prems appended_first_seen [OF target(2,3)]
      by (auto simp: discovered_fetch_events discovered_append discovered_save)
  next
    case (continue html)
    obtain r2 s2 evs2 where rec:
      "links_loop w cfg ((appended w s html)\<lparr>current_page := current_page s + 1\<rparr>) = (r2, s2, evs2)"
      by (metis prod_cases3)
    have ih: "collected_links s2 =
        first_seen_from (collected_links (appended w s html)) (discovered w evs2)"
      using step.IH [OF continue(1-5) rec] by simp
    have "s' = s2" "evs = fetch_events cfg s @ save_links_checkpoint (appended w s html) @ evs2"
      using continue(6) rec step.prems by simp_all
    then show ?thesis using ih appended_first_seen [OF continue(2,3)]
      by (simp add: discovered_append discovered_fetch_events discovered_save first_seen_from_append)
  qed
qed


lemma first_seen_distinct_prefix: "distinct c \<Longrightarrow> first_seen (c @ zs) = first_seen_from c zs"
  by (simp add: first_seen_def first_seen_from_append first_seen_from_distinct)

lemma appended_distinct:
  assumes "fetched w cfg s = Some html" "html \<noteq> []" "distinct (collected_links s)"
  shows "distinct (collected_links (appended w s html))"
  using appended_first_seen [OF assms(1,2)] assms(3) by (simp add: distinct_first_seen_from)

lemma links_loop_checkpoints_distinct:
  "links_loop w cfg s = (r, s', evs) \<Longrightarrow> distinct (collected_links s) \<Longrightarrow>
   SaveLinksCheckpoint ls p \<in> set evs \<Longrightarrow> distinct ls"
proof (induction s arbitrary: r s' evs rule: links_loop_induct [where w = w and cfg = cfg])
  case (step s)
  show ?case
  proof (cases rule: links_loop_cases [of cfg s w])
    case max
    then show ?thesis using step.prems by simp
  next
    case fail
    then show ?thesis using step.prems by (auto simp: fetch_events_def)
  next
    case (nonew html)
    then show ?thesis using step.prems by (auto simp: fetch_events_def)
  next
    case (target html)
    then show ?thesis using step.prems appended_distinct [OF target(2,3)]
      by (auto simp: fetch_events_def save_links_checkpoint_def)
  next
    case (continue html)
    obtain r2 s2 evs2 where rec:
      "links_loop w cfg ((appended w s html)\<lparr>current_page := current_page s + 1\<rparr>) = (r2, s2, evs2)"
      by (metis prod_cases3)
    have d: "distinct (collected_links (appended w s html))"
      using appended_distinct [OF continue(2,3)] step.prems(2) by simp
    have evs: "evs = fetch_events cfg s @ save_links_checkpoint (appended w s html) @ evs2"
      using continue(6) rec step.prems by simp
    from step.prems(3) evs consider
      "ls = collected_links (appended w s html)" | "SaveLinksCheckpoint ls p \<in> set evs2"
      by (auto simp: fetch_events_def save_links_checkpoint_def)
    then show ?thesis
    proof cases
      case 1
      then show ?thesis using d by simp
    next
      case 2
      show ?thesis
        by (rule step.IH [OF continue(1-5) rec _ 2]) (simp add: d)
    qed
  qed
qed

lemma discovered_snoc_results: "discovered w (evs @ [SaveResults out]) = discovered w evs"
  by (simp add: discovered_append)

text \<open>
  C4. Dedup invariant, for a run that starts fresh or resumes from a checkpoint whose
  links are distinct. A run starts from the links of the checkpoint it loads (none on a
  fresh start) and takes them as they are. When they are distinct, the list that
  \<^verbatim>\<open>save_results\<close> writes is the first-seen list of the loaded links followed by every
  product URL shown by the pages fetched, and it is distinct. Every checkpoint written
  on the way holds distinct links too, so a later run that resumes from it starts from
  distinct links.
\<close>

theorem C4_dedup_first_seen:
  assumes "run_links w cfg file = (r, s, evs)"
    and "distinct (collected_links (load_links_checkpoint cfg file))"
  shows "evs = butlast evs @ [SaveResults (collected_links s)] \<and>
         distinct (collected_links s) \<and>
         collected_links s =
           first_seen (collected_links (load_links_checkpoint cfg file) @ discovered w evs) \<and>
         (\<forall>ls p. SaveLinksCheckpoint ls p \<in> set evs \<longrightarrow> distinct ls)"
proof -
  obtain evs0 where loop: "links_loop w cfg (load_links_checkpoint cfg file) = (r, s, evs0)"
    and evs: "evs = evs0 @ [SaveResults (collected_links s)]"
    using assms(1) by (auto simp: run_links_def split: prod.splits)
  have fs: "collected_links s =
      first_seen_from (collected_links (load_links_checkpoint cfg file)) (discovered w evs0)"
    by (rule links_loop_first_seen [OF loop])
  have "\<forall>ls p. SaveLinksCheckpoint ls p \<in> set evs0 \<longrightarrow> distinct ls"
    using links_loop_checkpoints_distinct [OF loop assms(2)] by blast
  then show ?thesis
    using fs assms(2) evs
    by (simp add: first_seen_distinct_prefix discovered_append distinct_first_seen_from)
qed


lemma str_int_2: "str_int 2 = ''2''" "str_int 3 = ''3''"
  by (simp_all add: str_int_def digits_of.simps)

lemma sample_run:
  "run_links sample_links_world sample_links_config None =
     (FetchFailed,
      \<lparr>collected_links = [''https://www.lamoda.ru/p/a'', ''https://www.lamoda.ru/p/b'', ''https://www.lamoda.ru/p/c''],
       current_page = 3\<rparr>,
      [Sleep 2, GetPage ''https://shop/c/'',
       SaveLinksCheckpoint [''https://www.lamoda.ru/p/a'', ''https://www.lamoda.ru/p/b''] 1,
       Sleep 2, GetPage ''https://shop/c/?page=2'',
       SaveLinksCheckpoint [''https://www.lamoda.ru/p/a'', ''https://www.lamoda.ru/p/b'', ''https://www.lamoda.ru/p/c''] 2,
       Sleep 2, GetPage ''https://shop/c/?page=3'',
       SaveResults [''https://www.lamoda.ru/p/a'', ''https://www.lamoda.ru/p/b'', ''https://www.lamoda.ru/p/c'']])"
  by (simp add: run_links_def load_links_checkpoint_def links_loop.simps sample_links_config_def
      sample_links_world_def get_listing_html_def page_url_def parse_links_from_html_def
      save_links_checkpoint_def target_page_reached_def str_int_2 Let_def)


lemma length_collect_cards: "length (collect_cards c pl cards) \<le> length pl + length cards"
proof (induction cards arbitrary: pl)
  case Nil
  show ?case by simp
next
  case (Cons a_card cards)
  have more: "length (collect_cards c (pl @ [x]) cards) \<le> Suc (length pl + length cards)" for x
    using Cons.IH [of "pl @ [x]"] by simp
  have same: "length (collect_cards c pl cards) \<le> Suc (length pl + length cards)"
    using Cons.IH [of pl] by simp
  show ?case
    using more same by (simp add: Let_def split: option.splits)
qed

lemma length_parse_links:
  "listing_cards w html = Some cards \<Longrightarrow> length (parse_links_from_html w c html) \<le> length cards"
  using length_collect_cards [of c "[]" cards] by (simp add: parse_links_from_html_def)

lemma parse_links_no_grid: "listing_cards w html = None \<Longrightarrow> parse_links_from_html w c html = []"
  by (simp add: parse_links_from_html_def)

lemma length_appended:
  "length (collected_links (appended w s html)) =
   length (collected_links s) + length (parse_links_from_html w (collected_links s) html)"
  by (simp add: appended_def)

lemma links_loop_overshoot:
  assumes bound: "\<And>html cards. listing_cards w html = Some cards \<Longrightarrow> length cards \<le> K"
  shows "links_loop w cfg s = (r, s', evs) \<Longrightarrow>
         int (length (collected_links s')) < max (int (length (collected_links s)) + 1) (max_links cfg + int K)"
proof (induction s arbitrary: r s' evs rule: links_loop_induct [where w = w and cfg = cfg])
  case (step s)
  have new_le: "length (parse_links_from_html w (collected_links s) html) \<le> K" for html
  proof (cases "listing_cards w html")
    case None
    then show ?thesis by (simp add: parse_links_no_grid)
  next
    case (Some cards)
    then show ?thesis using length_parse_links [OF Some] bound [OF Some] by (meson le_trans)
  qed
  show ?case
  proof (cases rule: links_loop_cases [of cfg s w])
    case max
    then show ?thesis using step.prems by simp
  next
    case fail
    then show ?thesis using step.prems by simp
  next
    case (nonew html)
    then show ?thesis using step.prems by simp
  next
    case (target html)
    then show ?thesis using step.prems new_le [of html] by (simp add: length_appended)
  next
    case (continue html)
    obtain r2 s2 evs2 where rec:
      "links_loop w cfg ((appended w s html)\<lparr>current_page := current_page s + 1\<rparr>) = (r2, s2, evs2)"
      by (metis prod_cases3)
    have s': "s' = s2" using continue(6) rec step.prems by simp
    have "int (length (collected_links s2)) <
          max (int (length (collected_links (appended w s html))) + 1) (max_links cfg + int K)"
      using step.IH [OF continue(1-5) rec] by simp
    then show ?thesis using s' continue(1) new_le [of html] by (simp add: length_appended)
  qed
qed

lemma links_loop_full_after_append:
  assumes "\<not> max_links cfg \<le> int (length (collected_links s))"
    "fetched w cfg s = Some html" "html \<noteq> []"
    "parse_links_from_html w (collected_links s) html \<noteq> []"
    "max_links cfg \<le> int (length (collected_links (appended w s html)))"
  shows "links_loop w cfg s =
           (if target_page_reached cfg (appended w s html)
            then (TargetPage, appended w s html,
                  fetch_events cfg s @ save_links_checkpoint (appended w s html))
            else (MaxReached, (appended w s html)\<lparr>current_page := current_page s + 1\<rparr>,
                  fetch_events cfg s @ save_links_checkpoint (appended w s html)))"
proof (cases "target_page_reached cfg (appended w s html)")
  case True
  then show ?thesis using links_loop_target [OF assms(1-4)] by simp
next
  case False
  have "links_loop w cfg ((appended w s html)\<lparr>current_page := current_page s + 1\<rparr>) =
        (MaxReached, (appended w s html)\<lparr>current_page := current_page s + 1\<rparr>, [])"
    using assms(5) by (intro links_loop_max) simp
  then show ?thesis using False links_loop_continue [OF assms(1-4) False] by simp
qed

lemma page_gets_append: "page_gets (xs @ ys) = page_gets xs @ page_gets ys"
  by (induction xs rule: page_gets.induct) auto

lemma page_gets_step:
  "page_gets (fetch_events cfg s @ save_links_checkpoint s1) = [page_url cfg (current_page s)]"
  by (simp add: fetch_events_def save_links_checkpoint_def)

text \<open>
  C3. Stop conditions of the link collector. From the head of the loop: with the
  maximum reached nothing is fetched; otherwise a failed fetch stops the loop;
  otherwise a page without new links stops it; otherwise the links are appended and
  the target-page test stops it. When the count after the append has reached the
  maximum, the loop ends with this page as its only fetch and with exactly the
  appended links, which exceed the maximum by less than the new links of the page
  (the target-page test or the next test of the maximum ends it, with the same links
  and the same fetches either way).
  If no page shows more than \<open>K\<close> cards and the run starts below the maximum, it ends
  below the maximum plus \<open>K\<close>.
\<close>

theorem C3_stop_precedence:
  "(max_links cfg \<le> int (length (collected_links s)) \<longrightarrow>
      links_loop w cfg s = (MaxReached, s, [])) \<and>
   (\<not> max_links cfg \<le> int (length (collected_links s)) \<and> not_html (fetched w cfg s) \<longrightarrow>
      links_loop w cfg s = (FetchFailed, s, fetch_events cfg s)) \<and>
   (\<not> max_links cfg \<le> int (length (collected_links s)) \<and> fetched w cfg s = Some html \<and>
    html \<noteq> [] \<and> parse_links_from_html w (collected_links s) html = [] \<longrightarrow>
      links_loop w cfg s = (NoNewLinks, s, fetch_events cfg s)) \<and>
   (\<not> max_links cfg \<le> int (length (collected_links s)) \<and> fetched w cfg s = Some html \<and>
    html \<noteq> [] \<and> parse_links_from_html w (collected_links s) html \<noteq> [] \<and>
    target_page_reached cfg (appended w s html) \<longrightarrow>
      links_loop w cfg s =
        (TargetPage, appended w s html,
         fetch_events cfg s @ save_links_checkpoint (appended w s html))) \<and>
   (\<not> max_links cfg \<le> int (length (collected_links s)) \<and> fetched w cfg s = Some html \<and>
    html \<noteq> [] \<and> parse_links_from_html w (collected_links s) html \<noteq> [] \<and>
    max_links cfg \<le> int (length (collected_links (appended w s html))) \<longrightarrow>
      page_gets (snd (snd (links_loop w cfg s))) = [page_url cfg (current_page s)] \<and>
      collected_links (fst (snd (links_loop w cfg s))) = collected_links (appended w s html) \<and>
      int (length (collected_links (appended w s html))) <
        max_links cfg + int (length (parse_links_from_html w (collected_links s) html))) \<and>
   ((\<forall>page cards. listing_cards w page = Some cards \<longrightarrow> length cards \<le> K) \<and>
    int (length (collected_links s)) < max_links cfg \<longrightarrow>
      int (length (collected_links (fst (snd (links_loop w cfg s))))) < max_links cfg + int K)"
proof (intro conjI impI)
  assume "max_links cfg \<le> int (length (collected_links s))"
  then show "links_loop w cfg s = (MaxReached, s, [])" by (rule links_loop_max)
next
  assume a: "\<not> max_links cfg \<le> int (length (collected_links s)) \<and> not_html (fetched w cfg s)"
  then show "links_loop w cfg s = (FetchFailed, s, fetch_events cfg s)"
    using links_loop_fetch_none [of cfg s w] links_loop_fetch_empty [of cfg s w]
    by (auto simp: not_html_def split: option.splits)
next
  assume "\<not> max_links cfg \<le> int (length (collected_links s)) \<and> fetched w cfg s = Some html \<and>
    html \<noteq> [] \<and> parse_links_from_html w (collected_links s) html = []"
  then show "links_loop w cfg s = (NoNewLinks, s, fetch_events cfg s)"
    using links_loop_no_new by blast
next
  assume "\<not> max_links cfg \<le> int (length (collected_links s)) \<and> fetched w cfg s = Some html \<and>
    html \<noteq> [] \<and> parse_links_from_html w (collected_links s) html \<noteq> [] \<and>
    target_page_reached cfg (appended w s html)"
  then show "links_loop w cfg s =
        (TargetPage, appended w s html,
         fetch_events cfg s @ save_links_checkpoint (appended w s html))"
    using links_loop_target by blast
next
  assume a: "\<not> max_links cfg \<le> int (length (collected_links s)) \<and> fetched w cfg s = Some html \<and>
    html \<noteq> [] \<and> parse_links_from_html w (collected_links s) html \<noteq> [] \<and>
    max_links cfg \<le> int (length (collected_links (appended w s html)))"
  then have full: "links_loop w cfg s =
           (if target_page_reached cfg (appended w s html)
            then (TargetPage, appended w s html,
                  fetch_events cfg s @ save_links_checkpoint (appended w s html))
            else (MaxReached, (appended w s html)\<lparr>current_page := current_page s + 1\<rparr>,
                  fetch_events cfg s @ save_links_checkpoint (appended w s html)))"
    using links_loop_full_after_append by blast
  show "page_gets (snd (snd (links_loop w cfg s))) = [page_url cfg (current_page s)]"
    by (simp add: full page_gets_step)
  show "collected_links (fst (snd (links_loop w cfg s))) = collected_links (appended w s html)"
    by (simp add: full)
  show "int (length (collected_links (appended w s html))) <
        max_links cfg + int (length (parse_links_from_html w (collected_links s) html))"
    using a by (simp add: length_appended)
next
  assume a: "(\<forall>page cards. listing_cards w page = Some cards \<longrightarrow> length cards \<le> K) \<and>
    int (length (collected_links s)) < max_links cfg"
  obtain r s' evs where l: "links_loop w cfg s = (r, s', evs)" by (metis prod_cases3)
  have "int (length (collected_links s')) <
        max (int (length (collected_links s)) + 1) (max_links cfg + int K)"
    using links_loop_overshoot [OF _ l] a by blast
  then show "int (length (collected_links (fst (snd (links_loop w cfg s))))) < max_links cfg + int K"
    using a l by simp
qed


lemma sample_resumed_run:
  "run_links sample_links_world sample_links_config
     (Some \<lparr>cp_links = Some [''https://www.lamoda.ru/p/a'', ''https://www.lamoda.ru/p/b''],
            cp_current_page = Some 2\<rparr>) =
     (FetchFailed,
      \<lparr>collected_links = [''https://www.lamoda.ru/p/a'', ''https://www.lamoda.ru/p/b'', ''https://www.lamoda.ru/p/c''],
       current_page = 3\<rparr>,
      [Sleep 2, GetPage ''https://shop/c/?page=2'',
       SaveLinksCheckpoint [''https://www.lamoda.ru/p/a'', ''https://www.lamoda.ru/p/b'', ''https://www.lamoda.ru/p/c''] 2,
       Sleep 2, GetPage ''https://shop/c/?page=3'',
       SaveResults [''https://www.lamoda.ru/p/a'', ''https://www.lamoda.ru/p/b'', ''https://www.lamoda.ru/p/c'']])"
  by (simp add: run_links_def load_links_checkpoint_def links_loop.simps sample_links_config_def
      sample_links_world_def get_listing_html_def page_url_def parse_links_from_html_def
      save_links_checkpoint_def target_page_reached_def str_int_2 Let_def)

theorem C4_dedup_first_seen_witness:
  "distinct (collected_links (load_links_checkpoint sample_links_config None)) \<and>
   run_links sample_links_world sample_links_config None =
     (FetchFailed,
      \<lparr>collected_links = [''https://www.lamoda.ru/p/a'', ''https://www.lamoda.ru/p/b'', ''https://www.lamoda.ru/p/c''],
       current_page = 3\<rparr>,
      [Sleep 2, GetPage ''https://shop/c/'',
       SaveLinksCheckpoint [''https://www.lamoda.ru/p/a'', ''https://www.lamoda.ru/p/b''] 1,
       Sleep 2, GetPage ''https://shop/c/?page=2'',
       SaveLinksCheckpoint [''https://www.lamoda.ru/p/a'', ''https://www.lamoda.ru/p/b'', ''https://www.lamoda.ru/p/c''] 2,
       Sleep 2, GetPage ''https://shop/c/?page=3'',
       SaveResults [''https://www.lamoda.ru/p/a'', ''https://www.lamoda.ru/p/b'', ''https://www.lamoda.ru/p/c'']]) \<and>
   distinct (collected_links
     \<lparr>collected_links = [''https://www.lamoda.ru/p/a'', ''https://www.lamoda.ru/p/b'', ''https://www.lamoda.ru/p/c''],
      current_page = 3\<rparr>) \<and>
   collected_links
     \<lparr>collected_links = [''https://www.lamoda.ru/p/a'', ''https://www.lamoda.ru/p/b'', ''https://www.lamoda.ru/p/c''],
      current_page = 3\<rparr> =
     first_seen (collected_links (load_links_checkpoint sample_links_config None) @
       discovered sample_links_world
         [Sleep 2, GetPage ''https://shop/c/'',
          SaveLinksCheckpoint [''https://www.lamoda.ru/p/a'', ''https://www.lamoda.ru/p/b''] 1,
          Sleep 2, GetPage ''https://shop/c/?page=2'',
          SaveLinksCheckpoint [''https://www.lamoda.ru/p/a'', ''https://www.lamoda.ru/p/b'', ''https://www.lamoda.ru/p/c''] 2,
          Sleep 2, GetPage ''https://shop/c/?page=3'',
          SaveResults [''https://www.lamoda.ru/p/a'', ''https://www.lamoda.ru/p/b'', ''https://www.lamoda.ru/p/c'']]) \<and>
   discovered sample_links_world
     [Sleep 2, GetPage ''https://shop/c/'',
      SaveLinksCheckpoint [''https://www.lamoda.ru/p/a'', ''https://www.lamoda.ru/p/b''] 1,
      Sleep 2, GetPage ''https://shop/c/?page=2'',
      SaveLinksCheckpoint [''https://www.lamoda.ru/p/a'', ''https://www.lamoda.ru/p/b'', ''https://www.lamoda.ru/p/c''] 2,
      Sleep 2, GetPage ''https://shop/c/?page=3'',
      SaveResults [''https://www.lamoda.ru/p/a'', ''https://www.lamoda.ru/p/b'', ''https://www.lamoda.ru/p/c'']] =
     [''https://www.lamoda.ru/p/a'', ''https://www.lamoda.ru/p/b'', ''https://www.lamoda.ru/p/a'',
      ''https://www.lamoda.ru/p/b'', ''https://www.lamoda.ru/p/c''] \<and>
   distinct (collected_links (load_links_checkpoint sample_links_config
     (Some \<lparr>cp_links = Some [''https://www.lamoda.ru/p/a'', ''https://www.lamoda.ru/p/b''],
            cp_current_page = Some 2\<rparr>))) \<and>
   distinct [''https://www.lamoda.ru/p/a'', ''https://www.lamoda.ru/p/b'', ''https://www.lamoda.ru/p/c''] \<and>
   collected_links
     \<lparr>collected_links = [''https://www.lamoda.ru/p/a'', ''https://www.lamoda.ru/p/b'', ''https://www.lamoda.ru/p/c''],
      current_page = 3\<rparr> =
     first_seen (collected_links (load_links_checkpoint sample_links_config
         (Some \<lparr>cp_links = Some [''https://www.lamoda.ru/p/a'', ''https://www.lamoda.ru/p/b''],
                cp_current_page = Some 2\<rparr>)) @
       discovered sample_links_world
         [Sleep 2, GetPage ''https://shop/c/?page=2'',
          SaveLinksCheckpoint [''https://www.lamoda.ru/p/a'', ''https://www.lamoda.ru/p/b'', ''https://www.lamoda.ru/p/c''] 2,
          Sleep 2, GetPage ''https://shop/c/?page=3'',
          SaveResults [''https://www.lamoda.ru/p/a'', ''https://www.lamoda.ru/p/b'', ''https://www.lamoda.ru/p/c'']])"
proof -
  have init: "distinct (collected_links (load_links_checkpoint sample_links_config None))"
    by (simp add: load_links_checkpoint_def)
  note inst = C4_dedup_first_seen [OF sample_run init]
  have shown: "discovered sample_links_world
     [Sleep 2, GetPage ''https://shop/c/'',
      SaveLinksCheckpoint [''https://www.lamoda.ru/p/a'', ''https://www.lamoda.ru/p/b''] 1,
      Sleep 2, GetPage ''https://shop/c/?page=2'',
      SaveLinksCheckpoint [''https://www.lamoda.ru/p/a'', ''https://www.lamoda.ru/p/b'', ''https://www.lamoda.ru/p/c''] 2,
      Sleep 2, GetPage ''https://shop/c/?page=3'',
      SaveResults [''https://www.lamoda.ru/p/a'', ''https://www.lamoda.ru/p/b'', ''https://www.lamoda.ru/p/c'']] =
     [''https://www.lamoda.ru/p/a'', ''https://www.lamoda.ru/p/b'', ''https://www.lamoda.ru/p/a'',
      ''https://www.lamoda.ru/p/b'', ''https://www.lamoda.ru/p/c'']"
    by (simp add: page_links_def sample_links_world_def)
  from inst have d: "distinct (collected_links
     \<lparr>collected_links = [''https://www.lamoda.ru/p/a'', ''https://www.lamoda.ru/p/b'', ''https://www.lamoda.ru/p/c''],
      current_page = 3\<rparr>)"
    by (rule conjunct2 [THEN conjunct1])
  from inst have f: "collected_links
     \<lparr>collected_links = [''https://www.lamoda.ru/p/a'', ''https://www.lamoda.ru/p/b'', ''https://www.lamoda.ru/p/c''],
      current_page = 3\<rparr> =
     first_seen (collected_links (load_links_checkpoint sample_links_config None) @
       discovered sample_links_world
         [Sleep 2, GetPage ''https://shop/c/'',
          SaveLinksCheckpoint [''https://www.lamoda.ru/p/a'', ''https://www.lamoda.ru/p/b''] 1,
          Sleep 2, GetPage ''https://shop/c/?page=2'',
          SaveLinksCheckpoint [''https://www.lamoda.ru/p/a'', ''https://www.lamoda.ru/p/b'', ''https://www.lamoda.ru/p/c''] 2,
          Sleep 2, GetPage ''https://shop/c/?page=3'',
          SaveResults [''https://www.lamoda.ru/p/a'', ''https://www.lamoda.ru/p/b'', ''https://www.lamoda.ru/p/c'']])"
    by (rule conjunct2 [THEN conjunct2, THEN conjunct1])
  have init2: "distinct (collected_links (load_links_checkpoint sample_links_config
     (Some \<lparr>cp_links = Some [''https://www.lamoda.ru/p/a'', ''https://www.lamoda.ru/p/b''],
            cp_current_page = Some 2\<rparr>)))"
    by (simp add: load_links_checkpoint_def)
  note resumed = C4_dedup_first_seen [OF sample_resumed_run init2]
  have d2: "distinct [''https://www.lamoda.ru/p/a'', ''https://www.lamoda.ru/p/b'', ''https://www.lamoda.ru/p/c'']"
    using resumed [THEN conjunct2, THEN conjunct1] by simp
  from resumed have f2: "collected_links
     \<lparr>collected_links = [''https://www.lamoda.ru/p/a'', ''https://www.lamoda.ru/p/b'', ''https://www.lamoda.ru/p/c''],
      current_page = 3\<rparr> =
     first_seen (collected_links (load_links_checkpoint sample_links_config
         (Some \<lparr>cp_links = Some [''https://www.lamoda.ru/p/a'', ''https://www.lamoda.ru/p/b''],
                cp_current_page = Some 2\<rparr>)) @
       discovered sample_links_world
         [Sleep 2, GetPage ''https://shop/c/?page=2'',
          SaveLinksCheckpoint [''https://www.lamoda.ru/p/a'', ''https://www.lamoda.ru/p/b'', ''https://www.lamoda.ru/p/c''] 2,
          Sleep 2, GetPage ''https://shop/c/?page=3'',
          SaveResults [''https://www.lamoda.ru/p/a'', ''https://www.lamoda.ru/p/b'', ''https://www.lamoda.ru/p/c'']])"
    by (rule conjunct2 [THEN conjunct2, THEN conjunct1])
  show ?thesis
    by (intro conjI) (rule init sample_run d f shown init2 d2 f2)+
qed

text \<open>
  A checkpoint that holds one URL twice is loaded as it is: the run resumed from it
  writes the URL twice to the output file.
\<close>

theorem C4_duplicate_in_checkpoint_counterexample:
  "run_links sample_links_world sample_links_config
     (Some \<lparr>cp_links = Some [''https://www.lamoda.ru/p/a'', ''https://www.lamoda.ru/p/a''],
            cp_current_page = Some 2\<rparr>) =
     (FetchFailed,
      \<lparr>collected_links =
         [''https://www.lamoda.ru/p/a'', ''https://www.lamoda.ru/p/a'',
          ''https://www.lamoda.ru/p/b'', ''https://www.lamoda.ru/p/c''],
       current_page = 3\<rparr>,
      [Sleep 2, GetPage ''https://shop/c/?page=2'',
       SaveLinksCheckpoint
         [''https://www.lamoda.ru/p/a'', ''https://www.lamoda.ru/p/a'',
          ''https://www.lamoda.ru/p/b'', ''https://www.lamoda.ru/p/c''] 2,
       Sleep 2, GetPage ''https://shop/c/?page=3'',
       SaveResults
         [''https://www.lamoda.ru/p/a'', ''https://www.lamoda.ru/p/a'',
          ''https://www.lamoda.ru/p/b'', ''https://www.lamoda.ru/p/c'']]) \<and>
   \<not> distinct
     [''https://www.lamoda.ru/p/a'', ''https://www.lamoda.ru/p/a'',
      ''https://www.lamoda.ru/p/b'', ''https://www.lamoda.ru/p/c'']"
  by (simp add: run_links_def load_links_checkpoint_def links_loop.simps sample_links_config_def
      sample_links_world_def get_listing_html_def page_url_def parse_links_from_html_def
      save_links_checkpoint_def target_page_reached_def str_int_2 Let_def)

lemma sample_links_world_page_size:
  "\<forall>page cards. listing_cards sample_links_world page = Some cards \<longrightarrow> length cards \<le> 5"
  by (auto simp: sample_links_world_def split: if_splits)

theorem C3_stop_precedence_witness:
  "max_links (sample_links_config\<lparr>max_links := 1\<rparr>) \<le> int (length [''x'']) \<and>
   links_loop sample_links_world (sample_links_config\<lparr>max_links := 1\<rparr>)
     \<lparr>collected_links = [''x''], current_page = 1\<rparr> =
     (MaxReached, \<lparr>collected_links = [''x''], current_page = 1\<rparr>, []) \<and>
   not_html (fetched sample_links_world sample_links_config \<lparr>collected_links = [], current_page = 3\<rparr>) \<and>
   links_loop sample_links_world sample_links_config \<lparr>collected_links = [], current_page = 3\<rparr> =
     (FetchFailed, \<lparr>collected_links = [], current_page = 3\<rparr>,
      [Sleep 2, GetPage ''https://shop/c/?page=3'']) \<and>
   parse_links_from_html sample_links_world
     [''https://www.lamoda.ru/p/a'', ''https://www.lamoda.ru/p/b''] ''p1'' = [] \<and>
   links_loop sample_links_world sample_links_config
     \<lparr>collected_links = [''https://www.lamoda.ru/p/a'', ''https://www.lamoda.ru/p/b''], current_page = 1\<rparr> =
     (NoNewLinks,
      \<lparr>collected_links = [''https://www.lamoda.ru/p/a'', ''https://www.lamoda.ru/p/b''], current_page = 1\<rparr>,
      [Sleep 2, GetPage ''https://shop/c/'']) \<and>
   target_page_reached (sample_links_config\<lparr>end_page := Some 1, min_links := 1\<rparr>)
     (appended sample_links_world \<lparr>collected_links = [], current_page = 1\<rparr> ''p1'') \<and>
   links_loop sample_links_world (sample_links_config\<lparr>end_page := Some 1, min_links := 1\<rparr>)
     \<lparr>collected_links = [], current_page = 1\<rparr> =
     (TargetPage,
      \<lparr>collected_links = [''https://www.lamoda.ru/p/a'', ''https://www.lamoda.ru/p/b''], current_page = 1\<rparr>,
      [Sleep 2, GetPage ''https://shop/c/'',
       SaveLinksCheckpoint [''https://www.lamoda.ru/p/a'', ''https://www.lamoda.ru/p/b''] 1]) \<and>
   fetched sample_links_world (sample_links_config\<lparr>max_links := 1\<rparr>)
     \<lparr>collected_links = [], current_page = 1\<rparr> = Some ''p1'' \<and>
   max_links (sample_links_config\<lparr>max_links := 1\<rparr>) \<le>
     int (length (collected_links (appended sample_links_world \<lparr>collected_links = [], current_page = 1\<rparr> ''p1''))) \<and>
   page_gets (snd (snd (links_loop sample_links_world (sample_links_config\<lparr>max_links := 1\<rparr>)
     \<lparr>collected_links = [], current_page = 1\<rparr>))) = [''https://shop/c/''] \<and>
   collected_links (fst (snd (links_loop sample_links_world (sample_links_config\<lparr>max_links := 1\<rparr>)
     \<lparr>collected_links = [], current_page = 1\<rparr>))) =
     [''https://www.lamoda.ru/p/a'', ''https://www.lamoda.ru/p/b''] \<and>
   int (length (collected_links (fst (snd (links_loop sample_links_world
     (sample_links_config\<lparr>max_links := 1\<rparr>) \<lparr>collected_links = [], current_page = 1\<rparr>))))) < 1 + 5"
  using
    C3_stop_precedence [of "sample_links_config\<lparr>max_links := 1\<rparr>"
      "\<lparr>collected_links = [''x''], current_page = 1\<rparr>" sample_links_world "''p1''" 5]
    C3_stop_precedence [of sample_links_config "\<lparr>collected_links = [], current_page = 3\<rparr>"
      sample_links_world "''p1''" 5]
    C3_stop_precedence [of sample_links_config
      "\<lparr>collected_links = [''https://www.lamoda.ru/p/a'', ''https://www.lamoda.ru/p/b''], current_page = 1\<rparr>"
      sample_links_world "''p1''" 5]
    C3_stop_precedence [of "sample_links_config\<lparr>end_page := Some 1, min_links := 1\<rparr>"
      "\<lparr>collected_links = [], current_page = 1\<rparr>" sample_links_world "''p1''" 5]
    C3_stop_precedence [of "sample_links_config\<lparr>max_links := 1\<rparr>"
      "\<lparr>collected_links = [], current_page = 1\<rparr>" sample_links_world "''p1''" 5]
    sample_links_world_page_size
  by (simp add: sample_links_config_def sample_links_world_def fetched_def appended_def
      fetch_events_def save_links_checkpoint_def page_url_def parse_links_from_html_def
      target_page_reached_def not_html_def str_int_2)


section \<open>The link collector: pacing and resume\<close>

lemma pacing_after_append:
  "pacing_after prev (xs @ ys) =
   pacing_after prev xs @ pacing_after (if xs = [] then prev else Some (last xs)) ys"
  by (induction xs arbitrary: prev) auto

lemma links_loop_pacing:
  "links_loop w cfg s = (r, s', evs) \<Longrightarrow>
   pacing_after prev evs = replicate (length (page_gets evs)) (Some (links_delay cfg))"
proof (induction s arbitrary: r s' evs prev rule: links_loop_induct [where w = w and cfg = cfg])
  case (step s)
  have one: "pacing_after prev (fetch_events cfg s @ rest) =
      Some (links_delay cfg) # pacing_after (Some (GetPage (page_url cfg (current_page s)))) rest"
    for rest
    by (simp add: fetch_events_def is_page_get_def sleep_of_def)
  have gets: "page_gets (fetch_events cfg s @ rest) = page_url cfg (current_page s) # page_gets rest"
    for rest
    by (simp add: fetch_events_def)
  show ?case
  proof (cases rule: links_loop_cases [of cfg s w])
    case max
    then show ?thesis using step.prems by simp
  next
    case fail
    then show ?thesis using step.prems one [of "[]"] gets [of "[]"] by simp
  next
    case (nonew html)
    then show ?thesis using step.prems one [of "[]"] gets [of "[]"] by simp
  next
    case (target html)
    then show ?thesis using step.prems
      by (auto simp: one gets save_links_checkpoint_def is_page_get_def)
  next
    case (continue html)
    obtain r2 s2 evs2 where rec:
      "links_loop w cfg ((appended w s html)\<lparr>current_page := current_page s + 1\<rparr>) = (r2, s2, evs2)"
      by (metis prod_cases3)
    have evs: "evs = fetch_events cfg s @ save_links_checkpoint (appended w s html) @ evs2"
      using continue(6) rec step.prems by simp
    show ?thesis
      using step.IH [OF continue(1-5) rec]
      by (simp add: evs one gets save_links_checkpoint_def is_page_get_def)
  qed
qed

lemma run_links_pacing:
  assumes "run_links w cfg file = (r, s, evs)"
  shows "pacing evs = replicate (length (page_gets evs)) (Some (links_delay cfg))"
proof -
  obtain evs0 where loop: "links_loop w cfg (load_links_checkpoint cfg file) = (r, s, evs0)"
    and evs: "evs = evs0 @ [SaveResults (collected_links s)]"
    using assms by (auto simp: run_links_def split: prod.splits)
  show ?thesis
    using links_loop_pacing [OF loop, of None]
    by (simp add: evs pacing_def pacing_after_append page_gets_append is_page_get_def)
qed

text \<open>The checkpoint of a completed page names that page, and a resumed run fetches it again.\<close>

lemma links_checkpoint_names_fetched_page:
  assumes "\<not> max_links cfg \<le> int (length (collected_links s))"
    "fetched w cfg s = Some html" "html \<noteq> []"
    "parse_links_from_html w (collected_links s) html \<noteq> []"
  shows "links_checkpoint_after file (fetch_events cfg s @ save_links_checkpoint (appended w s html)) =
         Some \<lparr>cp_links = Some (collected_links (appended w s html)),
               cp_current_page = Some (current_page s)\<rparr>"
  by (simp add: fetch_events_def save_links_checkpoint_def appended_def)

lemma links_resume_fetches_checkpoint_page:
  assumes "\<not> max_links cfg \<le> int (length ls)"
  shows "\<exists>rest. snd (snd (run_links w' cfg (Some \<lparr>cp_links = Some ls, cp_current_page = Some p\<rparr>))) =
           Sleep (links_delay cfg) # GetPage (page_url cfg p) # rest"
proof -
  let ?s = "\<lparr>collected_links = ls, current_page = p\<rparr>"
  have l: "load_links_checkpoint cfg (Some \<lparr>cp_links = Some ls, cp_current_page = Some p\<rparr>) = ?s"
    by (simp add: load_links_checkpoint_def)
  have "\<exists>rest. snd (snd (links_loop w' cfg ?s)) = Sleep (links_delay cfg) # GetPage (page_url cfg p) # rest"
    using assms
    by (cases rule: links_loop_cases [of cfg ?s w'])
       (auto simp: fetch_events_def split: prod.splits)
  then show ?thesis
    by (auto simp: run_links_def l split: prod.splits)
qed

text \<open>
  C2. Resume of the link collector. \<^verbatim>\<open>save_checkpoint\<close> runs before \<^verbatim>\<open>current_page\<close> is
  incremented, so the checkpoint that a run leaves behind when it is interrupted after
  its first page names page 1, a page already completed. The run resumed from that
  checkpoint fetches page 1 again; the page shows no link that is new, and the resumed
  run stops there without ever fetching page 2.
\<close>

theorem C2_resume_fetches_completed_page_again:
  "links_checkpoint_after None
     [Sleep 2, GetPage ''https://shop/c/'',
      SaveLinksCheckpoint [''https://www.lamoda.ru/p/a'', ''https://www.lamoda.ru/p/b''] 1] =
     Some \<lparr>cp_links = Some [''https://www.lamoda.ru/p/a'', ''https://www.lamoda.ru/p/b''],
           cp_current_page = Some 1\<rparr> \<and>
   take 3 (snd (snd (run_links sample_links_world sample_links_config None))) =
     [Sleep 2, GetPage ''https://shop/c/'',
      SaveLinksCheckpoint [''https://www.lamoda.ru/p/a'', ''https://www.lamoda.ru/p/b''] 1] \<and>
   run_links sample_links_world sample_links_config
     (Some \<lparr>cp_links = Some [''https://www.lamoda.ru/p/a'', ''https://www.lamoda.ru/p/b''],
            cp_current_page = Some 1\<rparr>) =
     (NoNewLinks,
      \<lparr>collected_links = [''https://www.lamoda.ru/p/a'', ''https://www.lamoda.ru/p/b''],
       current_page = 1\<rparr>,
      [Sleep 2, GetPage ''https://shop/c/'',
       SaveResults [''https://www.lamoda.ru/p/a'', ''https://www.lamoda.ru/p/b'']])"
  by (simp add: run_links_def load_links_checkpoint_def links_loop.simps sample_links_config_def
      sample_links_world_def get_listing_html_def page_url_def parse_links_from_html_def
      save_links_checkpoint_def target_page_reached_def str_int_2 Let_def)

text \<open>
  In the link collector one failed fetch ends the loop: here the fetch of page 1 fails
  and the run stops, although page 2 could have been fetched.
\<close>

theorem C5_links_counterexample:
  "run_links
     (sample_links_world\<lparr>fetch_listing :=
        (\<lambda>u. if u = ''https://shop/c/'' then None else Some ''p2'')\<rparr>)
     sample_links_config None =
     (FetchFailed, \<lparr>collected_links = [], current_page = 1\<rparr>,
      [Sleep 2, GetPage ''https://shop/c/'', SaveResults []]) \<and>
   fetch_listing
     (sample_links_world\<lparr>fetch_listing :=
        (\<lambda>u. if u = ''https://shop/c/'' then None else Some ''p2'')\<rparr>)
     ''https://shop/c/?page=2'' = Some ''p2''"
  by (simp add: run_links_def load_links_checkpoint_def links_loop.simps sample_links_config_def
      sample_links_world_def get_listing_html_def page_url_def)


section \<open>The detail fetcher: events of the download, of one index and of the run\<close>

lemma visited_append [simp]: "visited (xs @ ys) = visited xs @ visited ys"
  by (induction xs rule: visited.induct) auto

lemma checkpoints_written_append [simp]:
  "checkpoints_written (xs @ ys) = checkpoints_written xs @ checkpoints_written ys"
  by (induction xs rule: checkpoints_written.induct) auto

lemma skipped_append [simp]: "skipped (xs @ ys) = skipped xs @ skipped ys"
  by (induction xs rule: skipped.induct) auto

lemma sleeps_append [simp]: "sleeps (xs @ ys) = sleeps xs @ sleeps ys"
  by (induction xs rule: sleeps.induct) auto

lemma image_writes_append [simp]: "image_writes (xs @ ys) = image_writes xs @ image_writes ys"
  by (induction xs rule: image_writes.induct) auto

lemma sentinels_append [simp]: "sentinels (xs @ ys) = sentinels xs @ sentinels ys"
  by (induction xs rule: sentinels.induct) auto

lemma image_gets_append [simp]: "image_gets (xs @ ys) = image_gets xs @ image_gets ys"
  by (induction xs rule: image_gets.induct) auto

lemma cp_after_append [simp]: "cp_after f (xs @ ys) = cp_after (cp_after f xs) ys"
  by (induction f xs rule: cp_after.induct) auto

lemma product_events_silent:
  assumes "list_all product_event evs"
  shows "visited evs = []" "page_gets evs = []" "checkpoints_written evs = []"
    "skipped evs = []" "pacing_after prev evs = []" "cp_after file evs = file"
  using assms
proof (induction evs arbitrary: prev)
  case Nil
  {
    case 1 show ?case by simp
  next
    case 2 show ?case by simp
  next
    case 3 show ?case by simp
  next
    case 4 show ?case by simp
  next
    case 5 show ?case by simp
  next
    case 6 show ?case by simp
  }
next
  case (Cons e evs)
  {
    case 1 then show ?case using Cons.IH(1) by (cases e) (simp_all add: product_event_def)
  next
    case 2 then show ?case using Cons.IH(2) by (cases e) (simp_all add: product_event_def)
  next
    case 3 then show ?case using Cons.IH(3) by (cases e) (simp_all add: product_event_def)
  next
    case 4 then show ?case using Cons.IH(4) by (cases e) (simp_all add: product_event_def)
  next
    case 5 then show ?case using Cons.IH(5)
      by (cases e) (simp_all add: product_event_def is_page_get_def)
  next
    case 6 then show ?case using Cons.IH(6) by (cases e) (simp_all add: product_event_def)
  }
qed


text \<open>The attempts on one candidate.\<close>

lemma try_download_saved:
  "snd (try_download w idx k u ns) = (first_200 (image_try w idx k) ns \<noteq> None)"
  by (induction ns) (auto split: attempt.splits prod.splits)

lemma try_download_gets:
  "image_gets (fst (try_download w idx k u ns)) = replicate (attempts_made (image_try w idx k) ns) u"
  by (induction ns) (auto split: attempt.splits prod.splits)

lemma try_download_sleeps:
  "sleeps (fst (try_download w idx k u ns)) = replicate (raised_made (image_try w idx k) ns) 1"
  by (induction ns) (auto split: attempt.splits prod.splits)

lemma try_download_writes:
  "image_writes (fst (try_download w idx k u ns)) =
     (case first_200 (image_try w idx k) ns of
        None \<Rightarrow> []
      | Some body \<Rightarrow> [(idx, image_ext w u, body)])"
  by (induction ns) (auto split: attempt.splits prod.splits)

lemma try_download_sentinels: "sentinels (fst (try_download w idx k u ns)) = []"
  by (induction ns) (auto split: attempt.splits prod.splits)

lemma try_download_events: "list_all product_event (fst (try_download w idx k u ns))"
  by (induction ns) (auto simp: product_event_def split: attempt.splits prod.splits)

lemma attempts_made_le: "attempts_made outcome ns \<le> length ns"
  by (induction ns) (auto split: attempt.splits)

lemma attempts_made_pos: "ns \<noteq> [] \<Longrightarrow> 0 < attempts_made outcome ns"
  by (cases ns) (auto split: attempt.splits)

lemma raised_made_le: "raised_made outcome ns \<le> attempts_made outcome ns"
  by (induction ns) (auto split: attempt.splits)

text \<open>The candidates in order.\<close>

lemma download_first_Cons:
  "download_first w idx k (u # us) =
     (if first_200 (image_try w idx k) [0, 1, 2] \<noteq> None
      then (fst (try_download w idx k u [0, 1, 2]), True)
      else (fst (try_download w idx k u [0, 1, 2]) @ fst (download_first w idx (Suc k) us),
            snd (download_first w idx (Suc k) us)))"
  using try_download_saved [of w idx k u "[0, 1, 2]"]
  by (cases "try_download w idx k u [0, 1, 2]"; cases "download_first w idx (Suc k) us")
     (auto simp del: try_download.simps first_200.simps)

lemmas folded_attempts =
  try_download.simps first_200.simps attempts_made.simps raised_made.simps download_first.simps(2)

lemma download_first_saved:
  "snd (download_first w idx k us) = (first_image w idx k us \<noteq> None)"
  by (induction us arbitrary: k)
     (auto simp: download_first_Cons simp del: folded_attempts split: option.splits)

lemma download_first_gets:
  "image_gets (fst (download_first w idx k us)) = expected_gets w idx k us"
  by (induction us arbitrary: k)
     (auto simp: download_first_Cons try_download_gets simp del: folded_attempts split: option.splits)

lemma download_first_sleeps:
  "sleeps (fst (download_first w idx k us)) = replicate (expected_pauses w idx k us) 1"
  by (induction us arbitrary: k)
     (auto simp: download_first_Cons try_download_sleeps replicate_add
           simp del: folded_attempts split: option.splits)

lemma download_first_writes:
  "image_writes (fst (download_first w idx k us)) =
     (case first_image w idx k us of
        None \<Rightarrow> []
      | Some (u, body) \<Rightarrow> [(idx, image_ext w u, body)])"
  by (induction us arbitrary: k)
     (auto simp: download_first_Cons try_download_writes simp del: folded_attempts split: option.splits)

lemma download_first_sentinels: "sentinels (fst (download_first w idx k us)) = []"
  by (induction us arbitrary: k)
     (auto simp: download_first_Cons try_download_sentinels simp del: folded_attempts)

lemma download_first_events: "list_all product_event (fst (download_first w idx k us))"
  by (induction us arbitrary: k)
     (auto simp: download_first_Cons try_download_events simp del: folded_attempts)

lemma length_expected_gets: "length (expected_gets w idx k us) \<le> 3 * length us"
proof (induction us arbitrary: k)
  case Nil
  show ?case by simp
next
  case (Cons u us)
  have "attempts_made (image_try w idx k) [0, 1, 2] \<le> 3"
    using attempts_made_le [of "image_try w idx k" "[0, 1, 2]"] by simp
  then show ?case using Cons [of "Suc k"]
    by (auto simp del: folded_attempts split: option.splits)
qed

text \<open>\<^verbatim>\<open>save_product\<close> when no exception leaves it.\<close>

lemma save_product_quiet:
  assumes "raises w idx = None"
  shows "save_product w idx pd html =
           (fst (download_first w idx 0 (extract_image_urls w html (url pd))) @
            (if first_image w idx 0 (extract_image_urls w html (url pd)) = None
             then [WriteNoImage idx] else []) @
            [WriteData idx pd], False)"
  using assms download_first_saved [of w idx 0 "extract_image_urls w html (url pd)"]
  by (cases "download_first w idx 0 (extract_image_urls w html (url pd))")
     (auto simp: save_product_def Let_def)

lemma save_product_events: "list_all product_event (fst (save_product w idx pd html))"
  using download_first_events [of w idx 0 "extract_image_urls w html (url pd)"]
  by (cases "download_first w idx 0 (extract_image_urls w html (url pd))")
     (auto simp: save_product_def Let_def product_event_def)


text \<open>One index.\<close>

lemma try_block_eq:
  "try_block w idx u html =
     (if raises w idx = Some ParsePage then ([], True)
      else if snd (save_product w idx (parse_product_page w html u) html) \<or>
              raises w idx = Some OpenCheckpoint
      then (fst (save_product w idx (parse_product_page w html u) html), True)
      else (fst (save_product w idx (parse_product_page w html u) html) @ [WriteCheckpoint idx],
            False))"
  by (cases "save_product w idx (parse_product_page w html u) html")
     (simp add: try_block_def save_checkpoint_def)

lemma process_index_eq:
  "process_index w cfg idx u =
     Visit idx u # Sleep (request_delay cfg + jitter w idx) # GetPage u #
     (case page_source w idx u of
        None \<Rightarrow> [SkipFetch idx]
      | Some html \<Rightarrow>
          if html = [] then [SkipFetch idx]
          else if raises w idx = Some ParsePage then [SkipError idx]
          else if snd (save_product w idx (parse_product_page w html u) html) \<or>
                  raises w idx = Some OpenCheckpoint
          then fst (save_product w idx (parse_product_page w html u) html) @ [SkipError idx]
          else fst (save_product w idx (parse_product_page w html u) html) @ [WriteCheckpoint idx])"
  by (simp add: process_index_def get_page_html_def not_html_def try_block_eq split: option.splits)

lemmas save_silent = product_events_silent [OF save_product_events]

lemma process_index_visited [simp]: "visited (process_index w cfg idx u) = [idx]"
  by (simp add: process_index_eq save_silent split: option.splits)

lemma process_index_page_gets [simp]: "page_gets (process_index w cfg idx u) = [u]"
  by (simp add: process_index_eq save_silent page_gets_append split: option.splits)

lemma process_index_checkpoints [simp]:
  "checkpoints_written (process_index w cfg idx u) = (if processed_ok w idx u then [idx] else [])"
  by (simp add: process_index_eq save_silent processed_ok_def saved_ok_def split: option.splits)

lemma process_index_skipped [simp]:
  "skipped (process_index w cfg idx u) = (if processed_ok w idx u then [] else [idx])"
  by (simp add: process_index_eq save_silent processed_ok_def saved_ok_def split: option.splits)

lemma process_index_cp_after [simp]:
  "cp_after f (process_index w cfg idx u) = (if processed_ok w idx u then saved_checkpoint idx else f)"
  by (simp add: process_index_eq save_silent processed_ok_def saved_ok_def split: option.splits)

lemma process_index_pacing:
  "pacing_after prev (process_index w cfg idx u @ rest) =
     Some (request_delay cfg + jitter w idx) #
     pacing_after (Some (last (process_index w cfg idx u))) rest"
  by (simp add: process_index_eq save_silent pacing_after_append is_page_get_def sleep_of_def
        split: option.splits)

lemma process_index_no_remove: "RemoveCheckpoint \<notin> set (process_index w cfg idx u)"
proof -
  have "\<not> product_event RemoveCheckpoint" by (simp add: product_event_def)
  then have "RemoveCheckpoint \<notin> set (fst (save_product w idx pd html))" for pd html
    using save_product_events [of w idx pd html] by (auto simp: list_all_iff)
  then show ?thesis by (simp add: process_index_eq split: option.splits)
qed

text \<open>The loop over the indices.\<close>

lemma run_loop_crashed:
  "snd (run_loop w cfg links idxs) = (\<exists>i \<in> set idxs. py_index links i = None)"
  by (induction idxs) (auto split: option.splits prod.splits)

lemma run_loop_visited:
  "visited (fst (run_loop w cfg links idxs)) = takeWhile (\<lambda>i. py_index links i \<noteq> None) idxs"
  by (induction idxs) (auto split: option.splits prod.splits)

lemma run_loop_checkpoints:
  "checkpoints_written (fst (run_loop w cfg links idxs)) =
     filter (item_succeeds w links) (visited (fst (run_loop w cfg links idxs)))"
  by (induction idxs) (auto simp: item_succeeds_def split: option.splits prod.splits)

lemma run_loop_skipped:
  "skipped (fst (run_loop w cfg links idxs)) =
     filter (\<lambda>i. \<not> item_succeeds w links i) (visited (fst (run_loop w cfg links idxs)))"
  by (induction idxs) (auto simp: item_succeeds_def split: option.splits prod.splits)

lemma run_loop_pacing:
  "pacing_after prev (fst (run_loop w cfg links idxs)) =
     map (\<lambda>i. Some (request_delay cfg + jitter w i)) (visited (fst (run_loop w cfg links idxs)))"
  by (induction idxs arbitrary: prev) (auto simp: process_index_pacing split: option.splits prod.splits)

lemma run_loop_page_gets:
  "length (page_gets (fst (run_loop w cfg links idxs))) = length (visited (fst (run_loop w cfg links idxs)))"
  by (induction idxs) (auto simp: page_gets_append split: option.splits prod.splits)

lemma run_loop_no_remove: "RemoveCheckpoint \<notin> set (fst (run_loop w cfg links idxs))"
  by (induction idxs) (auto simp: process_index_no_remove split: option.splits prod.splits)

lemma py_index_in_range: "0 \<le> i \<Longrightarrow> i < int (length xs) \<Longrightarrow> py_index xs i = Some (xs ! nat i)"
  by (simp add: py_index_def)

lemma run_loop_upto:
  assumes "0 \<le> a"
  shows "snd (run_loop w cfg links [a..int (length links) - 1]) = False"
    and "visited (fst (run_loop w cfg links [a..int (length links) - 1])) = [a..int (length links) - 1]"
proof -
  have ok: "\<forall>i \<in> set [a..int (length links) - 1]. py_index links i \<noteq> None"
    using assms by (auto simp: py_index_def)
  show "snd (run_loop w cfg links [a..int (length links) - 1]) = False"
    using ok by (simp add: run_loop_crashed)
  show "visited (fst (run_loop w cfg links [a..int (length links) - 1])) = [a..int (length links) - 1]"
    unfolding run_loop_visited using ok by (simp add: takeWhile_eq_all_conv)
qed

text \<open>The whole run.\<close>

lemma run_eq:
  "run w cfg input file =
     (if snd (run_loop w cfg (load_links cfg input)
               [load_checkpoint file (start_from cfg)..int (length (load_links cfg input)) - 1])
      then (Crashed,
            fst (run_loop w cfg (load_links cfg input)
                  [load_checkpoint file (start_from cfg)..int (length (load_links cfg input)) - 1]))
      else (Completed,
            fst (run_loop w cfg (load_links cfg input)
                  [load_checkpoint file (start_from cfg)..int (length (load_links cfg input)) - 1]) @
            (if cp_after file
                  (fst (run_loop w cfg (load_links cfg input)
                         [load_checkpoint file (start_from cfg)..int (length (load_links cfg input)) - 1]))
                \<noteq> NoFile
             then [RemoveCheckpoint] else [])))"
  by (simp add: run_def Let_def split: prod.splits)

lemma run_completes:
  assumes "0 \<le> load_checkpoint file (start_from cfg)"
  shows "fst (run w cfg input file) = Completed"
    and "visited (snd (run w cfg input file)) =
           [load_checkpoint file (start_from cfg)..int (length (load_links cfg input)) - 1]"
  using run_loop_upto [OF assms, of w cfg "load_links cfg input"]
  by (simp_all add: run_eq)

lemma run_checkpoints:
  "checkpoints_written (snd (run w cfg input file)) =
     filter (item_succeeds w (load_links cfg input)) (visited (snd (run w cfg input file)))"
  using run_loop_checkpoints [of w cfg "load_links cfg input"]
  by (simp add: run_eq)

lemma run_skipped:
  "skipped (snd (run w cfg input file)) =
     filter (\<lambda>i. \<not> item_succeeds w (load_links cfg input) i) (visited (snd (run w cfg input file)))"
  using run_loop_skipped [of w cfg "load_links cfg input"]
  by (simp add: run_eq)

lemma run_pacing:
  "pacing (snd (run w cfg input file)) =
     map (\<lambda>i. Some (request_delay cfg + jitter w i)) (visited (snd (run w cfg input file)))"
  using run_loop_pacing [of None w cfg "load_links cfg input"]
  by (simp add: run_eq pacing_def pacing_after_append is_page_get_def)

lemma run_page_gets:
  "length (page_gets (snd (run w cfg input file))) = length (visited (snd (run w cfg input file)))"
  using run_loop_page_gets [of w cfg "load_links cfg input"]
  by (simp add: run_eq page_gets_append)

text \<open>
  C1. Resume of the detail fetcher. With a checkpoint whose \<^verbatim>\<open>last_index\<close> is an integer
  \<open>n\<close> of at least \<open>-1\<close>, the run completes and visits exactly the indices from
  \<open>n + 1\<close> to the last index of the list, in order, so none up to \<open>n\<close> again.
  Without a checkpoint file and with a start offset of at least \<open>0\<close>, it visits the
  indices from the start offset on. (An index is visited when the body of the loop is
  entered for it.)
\<close>

theorem C1_resume_after_last_index:
  "(map_of entries ''last_index'' = Some (JInt n) \<and> - 1 \<le> n \<longrightarrow>
      fst (run w cfg input (Content (JObj entries))) = Completed \<and>
      visited (snd (run w cfg input (Content (JObj entries)))) =
        [n + 1..int (length (load_links cfg input)) - 1] \<and>
      (\<forall>i \<in> set (visited (snd (run w cfg input (Content (JObj entries))))). n < i)) \<and>
   (0 \<le> start_from cfg \<longrightarrow>
      fst (run w cfg input NoFile) = Completed \<and>
      visited (snd (run w cfg input NoFile)) =
        [start_from cfg..int (length (load_links cfg input)) - 1])"
proof (intro conjI impI)
  assume a: "map_of entries ''last_index'' = Some (JInt n) \<and> - 1 \<le> n"
  then have l: "load_checkpoint (Content (JObj entries)) (start_from cfg) = n + 1"
    by (simp add: load_checkpoint_def)
  have "0 \<le> load_checkpoint (Content (JObj entries)) (start_from cfg)"
    using a l by simp
  from run_completes [OF this, of w input]
  show "fst (run w cfg input (Content (JObj entries))) = Completed"
    and v: "visited (snd (run w cfg input (Content (JObj entries)))) =
        [n + 1..int (length (load_links cfg input)) - 1]"
    by (simp_all add: l)
  show "\<forall>i \<in> set (visited (snd (run w cfg input (Content (JObj entries))))). n < i"
    by (simp add: v)
next
  assume a: "0 \<le> start_from cfg"
  have l: "load_checkpoint NoFile (start_from cfg) = start_from cfg"
    by (simp add: load_checkpoint_def)
  have "0 \<le> load_checkpoint NoFile (start_from cfg)"
    using a l by simp
  from run_completes [OF this, of w input]
  show "fst (run w cfg input NoFile) = Completed"
    and "visited (snd (run w cfg input NoFile)) =
        [start_from cfg..int (length (load_links cfg input)) - 1]"
    by (simp_all add: l)
qed

theorem C1_resume_after_last_index_witness:
  "map_of [(''last_index'', JInt 0)] ''last_index'' = Some (JInt 0) \<and> - 1 \<le> (0::int) \<and>
   fst (run (sample_world []) sample_config [''u0'', ''u1'', ''u2'']
          (Content (JObj [(''last_index'', JInt 0)]))) = Completed \<and>
   visited (snd (run (sample_world []) sample_config [''u0'', ''u1'', ''u2'']
          (Content (JObj [(''last_index'', JInt 0)])))) = [1, 2] \<and>
   0 \<le> start_from sample_config \<and>
   fst (run (sample_world []) sample_config [''u0'', ''u1'', ''u2''] NoFile) = Completed \<and>
   visited (snd (run (sample_world []) sample_config [''u0'', ''u1'', ''u2''] NoFile)) = [0, 1, 2]"
  using C1_resume_after_last_index [of "[(''last_index'', JInt 0)]" 0 "sample_world []"
      sample_config "[''u0'', ''u1'', ''u2'']"]
  by (simp add: sample_config_def load_links_def upto_rec1)

text \<open>
  With \<^verbatim>\<open>last_index\<close> \<open>-5\<close> and two links the loop starts at index \<open>-4\<close>, and
  \<^verbatim>\<open>product_links[-4]\<close> raises \<^verbatim>\<open>IndexError\<close> before anything is processed.
\<close>

theorem C1_negative_index_counterexample:
  "run (sample_world []) sample_config [''u0'', ''u1'']
     (Content (JObj [(''last_index'', JInt (- 5))])) = (Crashed, [])"
  by (simp add: run_def load_links_def load_checkpoint_def sample_config_def py_index_def upto_rec1)

text \<open>
  C6. Checkpoint written only on success. Processing an index writes the checkpoint for
  that index, and the checkpoint file then is \<^verbatim>\<open>{"last_index": idx}\<close>, exactly when its
  page is fetched, parsed and saved without an exception and the write of the
  checkpoint does not raise either; otherwise the index is logged as skipped and the
  file stays as it was. Either way the loop goes on: a run that starts at an index of
  at least \<open>0\<close> visits every index up to the end of the list, and the checkpoints it
  writes are those of the indices that succeed.
\<close>

theorem C6_checkpoint_only_on_success:
  "checkpoints_written (process_index w cfg idx u) =
     (if saved_ok w idx u \<and> raises w idx \<noteq> Some OpenCheckpoint then [idx] else []) \<and>
   cp_after file (process_index w cfg idx u) =
     (if saved_ok w idx u \<and> raises w idx \<noteq> Some OpenCheckpoint
      then Content (JObj [(''last_index'', JInt idx)]) else file) \<and>
   skipped (process_index w cfg idx u) =
     (if saved_ok w idx u \<and> raises w idx \<noteq> Some OpenCheckpoint then [] else [idx]) \<and>
   (0 \<le> load_checkpoint file (start_from cfg) \<longrightarrow>
      visited (snd (run w cfg input file)) =
        [load_checkpoint file (start_from cfg)..int (length (load_links cfg input)) - 1] \<and>
      checkpoints_written (snd (run w cfg input file)) =
        filter
          (\<lambda>i. case py_index (load_links cfg input) i of
                 None \<Rightarrow> False
               | Some u' \<Rightarrow> saved_ok w i u' \<and> raises w i \<noteq> Some OpenCheckpoint)
          [load_checkpoint file (start_from cfg)..int (length (load_links cfg input)) - 1])"
proof (intro conjI impI)
  assume a: "0 \<le> load_checkpoint file (start_from cfg)"
  show v: "visited (snd (run w cfg input file)) =
        [load_checkpoint file (start_from cfg)..int (length (load_links cfg input)) - 1]"
    by (rule run_completes(2) [OF a])
  have s: "item_succeeds w (load_links cfg input) =
      (\<lambda>i. case py_index (load_links cfg input) i of
             None \<Rightarrow> False
           | Some u' \<Rightarrow> saved_ok w i u' \<and> raises w i \<noteq> Some OpenCheckpoint)"
    by (rule ext) (simp add: item_succeeds_def processed_ok_def split: option.splits)
  show "checkpoints_written (snd (run w cfg input file)) =
        filter
          (\<lambda>i. case py_index (load_links cfg input) i of
                 None \<Rightarrow> False
               | Some u' \<Rightarrow> saved_ok w i u' \<and> raises w i \<noteq> Some OpenCheckpoint)
          [load_checkpoint file (start_from cfg)..int (length (load_links cfg input)) - 1]"
    using run_checkpoints [of w cfg input "file"] by (simp add: v s)
qed (simp_all add: processed_ok_def saved_checkpoint_def)

lemma sample_world_ok: "processed_ok (sample_world []) idx u"
  by (simp add: processed_ok_def saved_ok_def sample_world_def save_product_def Let_def
        split: prod.splits)

lemma offline_world_not_ok: "\<not> processed_ok offline_world idx u"
  by (simp add: processed_ok_def saved_ok_def offline_world_def sample_world_def)

lemma locked_checkpoint_world_saved: "saved_ok locked_checkpoint_world idx u"
  by (simp add: saved_ok_def locked_checkpoint_world_def sample_world_def save_product_def Let_def
        split: prod.splits)

theorem C6_checkpoint_only_on_success_witness:
  "saved_ok (sample_world []) 1 ''u1'' \<and> raises (sample_world []) 1 \<noteq> Some OpenCheckpoint \<and>
   checkpoints_written (process_index (sample_world []) sample_config 1 ''u1'') = [1] \<and>
   cp_after Unparsable (process_index (sample_world []) sample_config 1 ''u1'') =
     Content (JObj [(''last_index'', JInt 1)]) \<and>
   skipped (process_index (sample_world []) sample_config 1 ''u1'') = [] \<and>
   \<not> saved_ok offline_world 1 ''u1'' \<and>
   checkpoints_written (process_index offline_world sample_config 1 ''u1'') = [] \<and>
   cp_after Unparsable (process_index offline_world sample_config 1 ''u1'') = Unparsable \<and>
   skipped (process_index offline_world sample_config 1 ''u1'') = [1] \<and>
   saved_ok locked_checkpoint_world 1 ''u1'' \<and>
   raises locked_checkpoint_world 1 = Some OpenCheckpoint \<and>
   checkpoints_written (process_index locked_checkpoint_world sample_config 1 ''u1'') = [] \<and>
   cp_after Unparsable (process_index locked_checkpoint_world sample_config 1 ''u1'') = Unparsable \<and>
   skipped (process_index locked_checkpoint_world sample_config 1 ''u1'') = [1] \<and>
   0 \<le> load_checkpoint NoFile (start_from sample_config) \<and>
   visited (snd (run (sample_world []) sample_config [''u0'', ''u1''] NoFile)) = [0, 1] \<and>
   checkpoints_written (snd (run (sample_world []) sample_config [''u0'', ''u1''] NoFile)) = [0, 1] \<and>
   checkpoints_written (snd (run offline_world sample_config [''u0'', ''u1''] NoFile)) = []"
proof -
  have ok: "saved_ok (sample_world []) i u" "raises (sample_world []) i \<noteq> Some OpenCheckpoint" for i u
    using sample_world_ok [of i u] by (simp_all add: processed_ok_def)
  have off: "\<not> saved_ok offline_world i u" for i u
    using offline_world_not_ok [of i u]
    by (simp add: processed_ok_def offline_world_def sample_world_def)
  have locked: "raises locked_checkpoint_world 1 = Some OpenCheckpoint"
    by (simp add: locked_checkpoint_world_def)
  show ?thesis
    using C6_checkpoint_only_on_success [of "sample_world []" sample_config 1 "''u1''" Unparsable
        "[''u0'', ''u1'']"]
      C6_checkpoint_only_on_success [of offline_world sample_config 1 "''u1''" Unparsable
        "[''u0'', ''u1'']"]
      C6_checkpoint_only_on_success [of locked_checkpoint_world sample_config 1 "''u1''" Unparsable
        "[''u0'', ''u1'']"]
      C6_checkpoint_only_on_success [of "sample_world []" sample_config 1 "''u1''" NoFile
        "[''u0'', ''u1'']"]
      C6_checkpoint_only_on_success [of offline_world sample_config 1 "''u1''" NoFile
        "[''u0'', ''u1'']"]
      ok off locked locked_checkpoint_world_saved
    by (simp add: sample_config_def load_links_def load_checkpoint_def py_index_def upto_rec1)
qed

text \<open>
  When the checkpoint file cannot be opened, the page of index 1 is fetched, parsed and
  saved (image and \<^verbatim>\<open>data.json\<close> are written), and yet no checkpoint is written: the
  exception is caught and the index is logged as skipped.
\<close>

theorem C6_locked_checkpoint_counterexample:
  "saved_ok locked_checkpoint_world 1 ''u1'' \<and>
   process_index locked_checkpoint_world sample_config 1 ''u1'' =
     [Visit 1 ''u1'', Sleep 3, GetPage ''u1'',
      GetImage ''u1/img/1.jpg'', WriteImage 1 ''.jpg'' ''bytes'',
      WriteData 1
        \<lparr>url = ''u1'', price = None, old_price = None, description = Some ''dress'',
         attributes = [(''size'', ''M'')]\<rparr>,
      SkipError 1] \<and>
   checkpoints_written (process_index locked_checkpoint_world sample_config 1 ''u1'') = []"
proof -
  have e: "process_index locked_checkpoint_world sample_config 1 ''u1'' =
     [Visit 1 ''u1'', Sleep 3, GetPage ''u1'',
      GetImage ''u1/img/1.jpg'', WriteImage 1 ''.jpg'' ''bytes'',
      WriteData 1
        \<lparr>url = ''u1'', price = None, old_price = None, description = Some ''dress'',
         attributes = [(''size'', ''M'')]\<rparr>,
      SkipError 1]"
    by (simp add: process_index_def get_page_html_def not_html_def try_block_def
        save_product_def parse_product_page_def add_attribute_def extract_image_urls_def
        image_ext_def locked_checkpoint_world_def sample_world_def sample_dom_def
        sample_config_def Let_def)
  show ?thesis
    by (simp add: e locked_checkpoint_world_saved)
qed

text \<open>
  C5. Failure isolation. In the detail fetcher the failure of one item neither stops
  the loop nor leaves it as an exception: started at an index of at least \<open>0\<close>, the
  run completes, visits every index up to the end of the list, and logs as skipped
  exactly the indices that do not succeed. In the link collector a failed fetch is not
  skipped: it ends the loop, and the links collected so far are written as the result.
\<close>

theorem C5_failure_isolation:
  "(0 \<le> load_checkpoint file (start_from cfg) \<longrightarrow>
      fst (run w cfg input file) = Completed \<and>
      visited (snd (run w cfg input file)) =
        [load_checkpoint file (start_from cfg)..int (length (load_links cfg input)) - 1] \<and>
      skipped (snd (run w cfg input file)) =
        filter (\<lambda>i. \<not> item_succeeds w (load_links cfg input) i)
          [load_checkpoint file (start_from cfg)..int (length (load_links cfg input)) - 1]) \<and>
   (\<not> max_links lcfg \<le> int (length (collected_links (load_links_checkpoint lcfg lfile))) \<and>
    not_html (fetched lw lcfg (load_links_checkpoint lcfg lfile)) \<longrightarrow>
      run_links lw lcfg lfile =
        (FetchFailed, load_links_checkpoint lcfg lfile,
         fetch_events lcfg (load_links_checkpoint lcfg lfile) @
         [SaveResults (collected_links (load_links_checkpoint lcfg lfile))]))"
proof (intro conjI impI)
  assume a: "0 \<le> load_checkpoint file (start_from cfg)"
  show "fst (run w cfg input file) = Completed"
    by (rule run_completes(1) [OF a])
  show v: "visited (snd (run w cfg input file)) =
        [load_checkpoint file (start_from cfg)..int (length (load_links cfg input)) - 1]"
    by (rule run_completes(2) [OF a])
  show "skipped (snd (run w cfg input file)) =
        filter (\<lambda>i. \<not> item_succeeds w (load_links cfg input) i)
          [load_checkpoint file (start_from cfg)..int (length (load_links cfg input)) - 1]"
    using run_skipped [of w cfg input "file"] by (simp add: v)
next
  assume a: "\<not> max_links lcfg \<le> int (length (collected_links (load_links_checkpoint lcfg lfile))) \<and>
    not_html (fetched lw lcfg (load_links_checkpoint lcfg lfile))"
  have "links_loop lw lcfg (load_links_checkpoint lcfg lfile) =
        (FetchFailed, load_links_checkpoint lcfg lfile, fetch_events lcfg (load_links_checkpoint lcfg lfile))"
    using a links_loop_fetch_none [of lcfg "load_links_checkpoint lcfg lfile" lw]
      links_loop_fetch_empty [of lcfg "load_links_checkpoint lcfg lfile" lw]
    by (auto simp: not_html_def split: option.splits)
  then show "run_links lw lcfg lfile =
        (FetchFailed, load_links_checkpoint lcfg lfile,
         fetch_events lcfg (load_links_checkpoint lcfg lfile) @
         [SaveResults (collected_links (load_links_checkpoint lcfg lfile))])"
    by (simp add: run_links_def)
qed

theorem C5_failure_isolation_witness:
  "0 \<le> load_checkpoint NoFile (start_from sample_config) \<and>
   fst (run offline_world sample_config [''u0'', ''u1''] NoFile) = Completed \<and>
   visited (snd (run offline_world sample_config [''u0'', ''u1''] NoFile)) = [0, 1] \<and>
   skipped (snd (run offline_world sample_config [''u0'', ''u1''] NoFile)) = [0, 1] \<and>
   \<not> max_links sample_links_config \<le>
       int (length (collected_links (load_links_checkpoint sample_links_config
         (Some \<lparr>cp_links = Some [], cp_current_page = Some 3\<rparr>)))) \<and>
   not_html (fetched sample_links_world sample_links_config
     (load_links_checkpoint sample_links_config
        (Some \<lparr>cp_links = Some [], cp_current_page = Some 3\<rparr>))) \<and>
   run_links sample_links_world sample_links_config
     (Some \<lparr>cp_links = Some [], cp_current_page = Some 3\<rparr>) =
     (FetchFailed, \<lparr>collected_links = [], current_page = 3\<rparr>,
      [Sleep 2, GetPage ''https://shop/c/?page=3'', SaveResults []])"
  using C5_failure_isolation [of NoFile sample_config offline_world "[''u0'', ''u1'']"
      sample_links_config "Some \<lparr>cp_links = Some [], cp_current_page = Some 3\<rparr>"
      sample_links_world]
    offline_world_not_ok
  by (simp add: sample_config_def load_links_def load_checkpoint_def item_succeeds_def
      py_index_def upto_rec1 sample_links_config_def sample_links_world_def
      load_links_checkpoint_def fetched_def fetch_events_def page_url_def not_html_def str_int_2)

text \<open>
  C9. Pacing. In the detail fetcher every page fetch has a sleep immediately before it,
  of the configured delay plus the jitter drawn for that index; with the jitter between
  0 and 2 the sleep lies between the delay and the delay plus 2. In the link collector
  every page fetch has a sleep immediately before it too, of exactly the configured
  delay: no jitter is added there.
\<close>

theorem C9_pacing:
  "pacing (snd (run w cfg input file)) =
     map (\<lambda>i. Some (request_delay cfg + jitter w i)) (visited (snd (run w cfg input file))) \<and>
   length (pacing (snd (run w cfg input file))) = length (page_gets (snd (run w cfg input file))) \<and>
   ((\<forall>i. 0 \<le> jitter w i \<and> jitter w i \<le> 2) \<longrightarrow>
      (\<forall>p \<in> set (pacing (snd (run w cfg input file))).
         \<exists>d. p = Some d \<and> request_delay cfg \<le> d \<and> d \<le> request_delay cfg + 2)) \<and>
   pacing (snd (snd (run_links lw lcfg lfile))) =
     replicate (length (page_gets (snd (snd (run_links lw lcfg lfile))))) (Some (links_delay lcfg))"
proof (intro conjI impI)
  show p: "pacing (snd (run w cfg input file)) =
     map (\<lambda>i. Some (request_delay cfg + jitter w i)) (visited (snd (run w cfg input file)))"
    by (rule run_pacing)
  show "length (pacing (snd (run w cfg input file))) = length (page_gets (snd (run w cfg input file)))"
    by (simp add: p run_page_gets)
  show "pacing (snd (snd (run_links lw lcfg lfile))) =
     replicate (length (page_gets (snd (snd (run_links lw lcfg lfile))))) (Some (links_delay lcfg))"
    by (rule run_links_pacing [of lw lcfg lfile "fst (run_links lw lcfg lfile)"
          "fst (snd (run_links lw lcfg lfile))"]) simp
  assume "\<forall>i. 0 \<le> jitter w i \<and> jitter w i \<le> 2"
  then show "\<forall>p \<in> set (pacing (snd (run w cfg input file))).
         \<exists>d. p = Some d \<and> request_delay cfg \<le> d \<and> d \<le> request_delay cfg + 2"
    by (auto simp: p)
qed

theorem C9_pacing_witness:
  "pacing (snd (run (sample_world []) sample_config [''u0'', ''u1''] NoFile)) = [Some 3, Some 3] \<and>
   length (page_gets (snd (run (sample_world []) sample_config [''u0'', ''u1''] NoFile))) = 2 \<and>
   0 \<le> jitter (sample_world []) 0 \<and> jitter (sample_world []) 0 \<le> 2 \<and>
   request_delay sample_config \<le> 3 \<and> 3 \<le> request_delay sample_config + 2 \<and>
   pacing (snd (snd (run_links sample_links_world sample_links_config None))) =
     [Some 2, Some 2, Some 2]"
proof -
  note inst = C9_pacing [of "sample_world []" sample_config "[''u0'', ''u1'']" NoFile
      sample_links_world sample_links_config None]
  have v: "visited (snd (run (sample_world []) sample_config [''u0'', ''u1''] NoFile)) = [0, 1]"
    using run_completes(2) [of NoFile sample_config "sample_world []" "[''u0'', ''u1'']"]
    by (simp add: sample_config_def load_links_def load_checkpoint_def upto_rec1)
  have p: "pacing (snd (run (sample_world []) sample_config [''u0'', ''u1''] NoFile)) = [Some 3, Some 3]"
    using inst [THEN conjunct1] unfolding v by (simp add: sample_config_def sample_world_def)
  have g: "length (page_gets (snd (run (sample_world []) sample_config [''u0'', ''u1''] NoFile))) = 2"
    using inst [THEN conjunct2, THEN conjunct1] by (simp add: p)
  have l: "pacing (snd (snd (run_links sample_links_world sample_links_config None))) =
     [Some 2, Some 2, Some 2]"
    using inst [THEN conjunct2, THEN conjunct2, THEN conjunct2] unfolding sample_run
    by (simp add: sample_links_config_def)
  have j: "0 \<le> jitter (sample_world []) 0 \<and> jitter (sample_world []) 0 \<le> 2"
    by (simp add: sample_world_def)
  have d: "request_delay sample_config \<le> 3 \<and> 3 \<le> request_delay sample_config + 2"
    by (simp add: sample_config_def)
  show ?thesis
    using p g l j d by blast
qed

text \<open>
  In the link collector the three fetches of the sample run are each preceded by a
  sleep of exactly the configured delay of 2 seconds, where the detail fetcher with the
  same delay and a jitter of 1 sleeps 3 seconds.
\<close>

theorem C9_links_counterexample:
  "request_delay sample_config = 2 \<and> jitter (sample_world []) 0 = 1 \<and>
   take 3 (snd (run (sample_world []) sample_config [''u0''] NoFile)) =
     [Visit 0 ''u0'', Sleep 3, GetPage ''u0''] \<and>
   links_delay sample_links_config = 2 \<and>
   snd (snd (run_links sample_links_world sample_links_config None)) =
     [Sleep 2, GetPage ''https://shop/c/'',
      SaveLinksCheckpoint [''https://www.lamoda.ru/p/a'', ''https://www.lamoda.ru/p/b''] 1,
      Sleep 2, GetPage ''https://shop/c/?page=2'',
      SaveLinksCheckpoint [''https://www.lamoda.ru/p/a'', ''https://www.lamoda.ru/p/b'', ''https://www.lamoda.ru/p/c''] 2,
      Sleep 2, GetPage ''https://shop/c/?page=3'',
      SaveResults [''https://www.lamoda.ru/p/a'', ''https://www.lamoda.ru/p/b'', ''https://www.lamoda.ru/p/c'']]"
  by (simp add: sample_run)
     (simp add: sample_links_config_def sample_config_def sample_world_def run_def
        load_links_def load_checkpoint_def py_index_def upto_rec1 process_index_def
        get_page_html_def)

text \<open>The checkpoint file under events that neither write nor remove it.\<close>

lemma cp_after_untouched:
  "checkpoints_written evs = [] \<Longrightarrow> RemoveCheckpoint \<notin> set evs \<Longrightarrow> cp_after f evs = f"
  by (induction f evs rule: cp_after.induct) auto

lemma cp_after_exists:
  "RemoveCheckpoint \<notin> set evs \<Longrightarrow> f \<noteq> NoFile \<Longrightarrow> cp_after f evs \<noteq> NoFile"
  by (induction f evs rule: cp_after.induct) (auto simp: saved_checkpoint_def)

lemma unusable_exists: "unusable f \<Longrightarrow> f \<noteq> NoFile"
  by (auto simp: unusable_def)

lemma load_checkpoint_unusable: "unusable f \<Longrightarrow> load_checkpoint f current_index = current_index"
  by (auto simp: unusable_def load_checkpoint_def split: cp_file.splits json.splits option.splits)

text \<open>
  C10. A checkpoint file that exists but gives no index (\<^verbatim>\<open>json.load\<close> rejects it, it
  is not an object, it has no \<^verbatim>\<open>last_index\<close>, or its \<^verbatim>\<open>last_index\<close> is neither an integer
  nor a boolean) leaves the current index at the configured start offset. With a start
  offset of at least \<open>0\<close> the run then completes and visits the indices from the
  start offset on; its events are those of the loop followed by the removal of the
  checkpoint file. The loop writes the checkpoint for the indices that succeed and
  never removes it, so up to the first success the file is the one found at the start;
  after the run there is no checkpoint file.
\<close>

theorem C10_unusable_checkpoint:
  "unusable file \<longrightarrow>
     load_checkpoint file (start_from cfg) = start_from cfg \<and>
     (0 \<le> start_from cfg \<longrightarrow>
        fst (run w cfg input file) = Completed \<and>
        visited (snd (run w cfg input file)) =
          [start_from cfg..int (length (load_links cfg input)) - 1] \<and>
        (\<exists>loop. snd (run w cfg input file) = loop @ [RemoveCheckpoint] \<and>
           RemoveCheckpoint \<notin> set loop \<and>
           checkpoints_written loop =
             filter (item_succeeds w (load_links cfg input))
               [start_from cfg..int (length (load_links cfg input)) - 1] \<and>
           (\<forall>pre. prefix pre loop \<and> checkpoints_written pre = [] \<longrightarrow> cp_after file pre = file)) \<and>
        cp_after file (snd (run w cfg input file)) = NoFile)"
proof (intro impI conjI)
  assume u: "unusable file"
  show l: "load_checkpoint file (start_from cfg) = start_from cfg"
    by (rule load_checkpoint_unusable [OF u])
  assume s: "0 \<le> start_from cfg"
  then have s': "0 \<le> load_checkpoint file (start_from cfg)" by (simp add: l)
  let ?loop = "fst (run_loop w cfg (load_links cfg input)
                 [start_from cfg..int (length (load_links cfg input)) - 1])"
  have nr: "RemoveCheckpoint \<notin> set ?loop" by (rule run_loop_no_remove)
  have ex: "cp_after file ?loop \<noteq> NoFile"
    by (rule cp_after_exists [OF nr unusable_exists [OF u]])
  have nc: "\<not> snd (run_loop w cfg (load_links cfg input)
                 [start_from cfg..int (length (load_links cfg input)) - 1])"
    using run_loop_upto(1) [OF s, of w cfg "load_links cfg input"] by simp
  have r: "snd (run w cfg input file) = ?loop @ [RemoveCheckpoint]"
    using ex nc by (simp add: run_eq l)
  show "fst (run w cfg input file) = Completed"
    by (rule run_completes(1) [OF s'])
  show "visited (snd (run w cfg input file)) =
          [start_from cfg..int (length (load_links cfg input)) - 1]"
    using run_completes(2) [OF s', of w input] by (simp add: l)
  have cw: "checkpoints_written ?loop =
      filter (item_succeeds w (load_links cfg input))
        [start_from cfg..int (length (load_links cfg input)) - 1]"
    using run_loop_checkpoints [of w cfg "load_links cfg input"
        "[start_from cfg..int (length (load_links cfg input)) - 1]"]
      run_loop_upto(2) [OF s, of w cfg "load_links cfg input"]
    by simp
  have pre: "\<forall>pre. prefix pre ?loop \<and> checkpoints_written pre = [] \<longrightarrow> cp_after file pre = file"
  proof (intro allI impI)
    fix pre
    assume p: "prefix pre ?loop \<and> checkpoints_written pre = []"
    then have "RemoveCheckpoint \<notin> set pre"
      using nr set_mono_prefix by blast
    then show "cp_after file pre = file"
      using p cp_after_untouched by blast
  qed
  show "\<exists>loop. snd (run w cfg input file) = loop @ [RemoveCheckpoint] \<and>
           RemoveCheckpoint \<notin> set loop \<and>
           checkpoints_written loop =
             filter (item_succeeds w (load_links cfg input))
               [start_from cfg..int (length (load_links cfg input)) - 1] \<and>
           (\<forall>pre. prefix pre loop \<and> checkpoints_written pre = [] \<longrightarrow> cp_after file pre = file)"
    using r nr cw pre by blast
  show "cp_after file (snd (run w cfg input file)) = NoFile"
    by (simp add: r)
qed

theorem C10_unusable_checkpoint_witness:
  "unusable (Content (JObj [(''last_index'', JStr ''7'')])) \<and>
   load_checkpoint (Content (JObj [(''last_index'', JStr ''7'')])) (start_from sample_config) =
     start_from sample_config \<and>
   0 \<le> start_from sample_config \<and>
   fst (run offline_world sample_config [''u0'', ''u1'']
          (Content (JObj [(''last_index'', JStr ''7'')]))) = Completed \<and>
   visited (snd (run offline_world sample_config [''u0'', ''u1'']
          (Content (JObj [(''last_index'', JStr ''7'')])))) = [0, 1] \<and>
   cp_after (Content (JObj [(''last_index'', JStr ''7'')]))
     (snd (run offline_world sample_config [''u0'', ''u1'']
          (Content (JObj [(''last_index'', JStr ''7'')])))) = NoFile"
proof -
  have u: "unusable (Content (JObj [(''last_index'', JStr ''7'')]))"
    by (simp add: unusable_def)
  have s: "0 \<le> start_from sample_config"
    by (simp add: sample_config_def)
  note inst = C10_unusable_checkpoint [of "Content (JObj [(''last_index'', JStr ''7'')])"
      sample_config offline_world "[''u0'', ''u1'']", rule_format, OF u]
  note run = inst [THEN conjunct2, rule_format, OF s]
  have v: "visited (snd (run offline_world sample_config [''u0'', ''u1'']
          (Content (JObj [(''last_index'', JStr ''7'')])))) = [0, 1]"
    using run [THEN conjunct2, THEN conjunct1]
    by (simp add: sample_config_def load_links_def upto_rec1)
  show ?thesis
    using u s v inst [THEN conjunct1] run [THEN conjunct1]
      run [THEN conjunct2, THEN conjunct2, THEN conjunct2]
    by blast
qed

text \<open>
  A checkpoint whose \<^verbatim>\<open>last_index\<close> is the JSON value \<^verbatim>\<open>true\<close> is not an integer, but the
  run starts at index 2 and not at the start offset 0. Here the only fetch fails, no
  product is saved, and yet the checkpoint file is removed when the loop ends.
\<close>

theorem C10_boolean_and_cleanup_counterexample:
  "start_from sample_config = 0 \<and>
   load_checkpoint (Content (JObj [(''last_index'', JBool True)])) (start_from sample_config) = 2 \<and>
   run offline_world sample_config [''u0'', ''u1'', ''u2'']
     (Content (JObj [(''last_index'', JBool True)])) =
     (Completed, [Visit 2 ''u2'', Sleep 3, GetPage ''u2'', SkipFetch 2, RemoveCheckpoint])"
  by (simp add: run_def load_links_def load_checkpoint_def sample_config_def py_index_def
      upto_rec1 process_index_def get_page_html_def not_html_def offline_world_def
      sample_world_def)

text \<open>\<^verbatim>\<open>save_product\<close>, by the stage at which an exception leaves it.\<close>

lemma save_product_eq:
  "save_product w idx pd html =
     (if raises w idx = Some MakeFolder \<or> raises w idx = Some ExtractImages then ([], True)
      else if first_image w idx 0 (extract_image_urls w html (url pd)) = None \<and>
              raises w idx = Some WriteSentinel
      then (fst (download_first w idx 0 (extract_image_urls w html (url pd))), True)
      else if raises w idx = Some WriteDataJson
      then (fst (download_first w idx 0 (extract_image_urls w html (url pd))) @
            (if first_image w idx 0 (extract_image_urls w html (url pd)) = None
             then [WriteNoImage idx] else []), True)
      else (fst (download_first w idx 0 (extract_image_urls w html (url pd))) @
            (if first_image w idx 0 (extract_image_urls w html (url pd)) = None
             then [WriteNoImage idx] else []) @
            [WriteData idx pd], False))"
  using download_first_saved [of w idx 0 "extract_image_urls w html (url pd)"]
  by (cases "download_first w idx 0 (extract_image_urls w html (url pd))")
     (auto simp: save_product_def Let_def)

text \<open>
  C7. Image download policy. Unless the folder cannot be made or the image URLs cannot
  be extracted, \<^verbatim>\<open>save_product\<close> requests the candidates in order, each one to three
  times, and goes to the next candidate only when none of the three tries answered
  with status 200; it sleeps one second after each try that raised, and not otherwise;
  it writes one image, the body of the first answer with status 200, or, when there is
  none, no image and (unless writing it raises) the no-image marker.
\<close>

theorem C7_image_download_policy:
  "(\<forall>k. 1 \<le> attempts_made (image_try w idx k) [0, 1, 2] \<and>
        attempts_made (image_try w idx k) [0, 1, 2] \<le> 3 \<and>
        raised_made (image_try w idx k) [0, 1, 2] \<le> attempts_made (image_try w idx k) [0, 1, 2]) \<and>
   (raises w idx \<noteq> Some MakeFolder \<and> raises w idx \<noteq> Some ExtractImages \<longrightarrow>
      image_gets (fst (save_product w idx pd html)) =
        expected_gets w idx 0 (extract_image_urls w html (url pd)) \<and>
      length (image_gets (fst (save_product w idx pd html))) \<le>
        3 * length (extract_image_urls w html (url pd)) \<and>
      sleeps (fst (save_product w idx pd html)) =
        replicate (expected_pauses w idx 0 (extract_image_urls w html (url pd))) 1 \<and>
      image_writes (fst (save_product w idx pd html)) =
        (case first_image w idx 0 (extract_image_urls w html (url pd)) of
           None \<Rightarrow> []
         | Some (u, body) \<Rightarrow> [(idx, image_ext w u, body)]) \<and>
      sentinels (fst (save_product w idx pd html)) =
        (if first_image w idx 0 (extract_image_urls w html (url pd)) = None \<and>
            raises w idx \<noteq> Some WriteSentinel
         then [idx] else []))"
proof (intro conjI allI impI)
  fix k
  show "1 \<le> attempts_made (image_try w idx k) [0, 1, 2]"
    using attempts_made_pos [of "[0, 1, 2]" "image_try w idx k"] by simp
  show "attempts_made (image_try w idx k) [0, 1, 2] \<le> 3"
    using attempts_made_le [of "image_try w idx k" "[0, 1, 2]"] by simp
  show "raised_made (image_try w idx k) [0, 1, 2] \<le> attempts_made (image_try w idx k) [0, 1, 2]"
    by (rule raised_made_le)
next
  assume a: "raises w idx \<noteq> Some MakeFolder \<and> raises w idx \<noteq> Some ExtractImages"
  show g: "image_gets (fst (save_product w idx pd html)) =
        expected_gets w idx 0 (extract_image_urls w html (url pd))"
    using a by (simp add: save_product_eq download_first_gets)
  show "length (image_gets (fst (save_product w idx pd html))) \<le>
        3 * length (extract_image_urls w html (url pd))"
    unfolding g by (rule length_expected_gets)
  show "sleeps (fst (save_product w idx pd html)) =
        replicate (expected_pauses w idx 0 (extract_image_urls w html (url pd))) 1"
    using a by (simp add: save_product_eq download_first_sleeps)
  show "image_writes (fst (save_product w idx pd html)) =
        (case first_image w idx 0 (extract_image_urls w html (url pd)) of
           None \<Rightarrow> []
         | Some (u, body) \<Rightarrow> [(idx, image_ext w u, body)])"
    using a by (simp add: save_product_eq download_first_writes)
  show "sentinels (fst (save_product w idx pd html)) =
        (if first_image w idx 0 (extract_image_urls w html (url pd)) = None \<and>
            raises w idx \<noteq> Some WriteSentinel
         then [idx] else [])"
    using a by (auto simp: save_product_eq download_first_sentinels)
qed

lemma sample_image_urls:
  "extract_image_urls (sample_world []) ''<html>'' ''p'' = [''p/img/1.jpg'']"
  by (simp add: extract_image_urls_def sample_world_def sample_dom_def)

theorem C7_image_download_policy_witness:
  "raises flaky_world 0 \<noteq> Some MakeFolder \<and> raises flaky_world 0 \<noteq> Some ExtractImages \<and>
   image_gets (fst (save_product flaky_world 0
     \<lparr>url = ''p'', price = None, old_price = None, description = None, attributes = []\<rparr>
     ''<html>'')) = [''p/img/1.jpg'', ''p/img/1.jpg'', ''p/img/1.jpg''] \<and>
   sleeps (fst (save_product flaky_world 0
     \<lparr>url = ''p'', price = None, old_price = None, description = None, attributes = []\<rparr>
     ''<html>'')) = [1] \<and>
   image_writes (fst (save_product flaky_world 0
     \<lparr>url = ''p'', price = None, old_price = None, description = None, attributes = []\<rparr>
     ''<html>'')) = [(0, ''.jpg'', ''bytes'')] \<and>
   sentinels (fst (save_product flaky_world 0
     \<lparr>url = ''p'', price = None, old_price = None, description = None, attributes = []\<rparr>
     ''<html>'')) = [] \<and>
   raises no_image_world 0 \<noteq> Some MakeFolder \<and> raises no_image_world 0 \<noteq> Some ExtractImages \<and>
   image_writes (fst (save_product no_image_world 0
     \<lparr>url = ''p'', price = None, old_price = None, description = None, attributes = []\<rparr>
     ''<html>'')) = [] \<and>
   sentinels (fst (save_product no_image_world 0
     \<lparr>url = ''p'', price = None, old_price = None, description = None, attributes = []\<rparr>
     ''<html>'')) = [0]"
  using
    C7_image_download_policy [of flaky_world 0
      "\<lparr>url = ''p'', price = None, old_price = None, description = None, attributes = []\<rparr>"
      "''<html>''"]
    C7_image_download_policy [of no_image_world 0
      "\<lparr>url = ''p'', price = None, old_price = None, description = None, attributes = []\<rparr>"
      "''<html>''"]
  by (simp add: flaky_world_def no_image_world_def sample_world_def sample_dom_def
      extract_image_urls_def image_ext_def)

text \<open>
  A candidate that answers 404 three times is requested three times in a row, with no
  pause between the tries.
\<close>

theorem C7_no_pause_counterexample:
  "fst (save_product no_image_world 0
     \<lparr>url = ''p'', price = None, old_price = None, description = None, attributes = []\<rparr>
     ''<html>'') =
     [GetImage ''p/img/1.jpg'', GetImage ''p/img/1.jpg'', GetImage ''p/img/1.jpg'',
      WriteNoImage 0,
      WriteData 0 \<lparr>url = ''p'', price = None, old_price = None, description = None, attributes = []\<rparr>]"
  by (simp add: save_product_def no_image_world_def sample_world_def sample_dom_def
      extract_image_urls_def Let_def)


section \<open>The detail fetcher: parsing a product page\<close>

text \<open>
  C8. Price parsing: with at least two price elements the old price is the text of the
  first and the price the text of the second; with exactly one the price is its text
  and the old price stays \<open>None\<close>; with none both stay \<open>None\<close>.
\<close>

theorem C8_price_parsing:
  "(price_elements (soup w html) = a # b # others \<longrightarrow>
      old_price (parse_product_page w html u) = Some a \<and>
      price (parse_product_page w html u) = Some b) \<and>
   (price_elements (soup w html) = [a] \<longrightarrow>
      price (parse_product_page w html u) = Some a \<and>
      old_price (parse_product_page w html u) = None) \<and>
   (price_elements (soup w html) = [] \<longrightarrow>
      price (parse_product_page w html u) = None \<and>
      old_price (parse_product_page w html u) = None)"
  by (auto simp: parse_product_page_def Let_def split: option.splits)

theorem C8_price_parsing_witness:
  "price_elements (soup (sample_world [''999'', ''1499'']) ''<html>'') = [''999'', ''1499''] \<and>
   old_price (parse_product_page (sample_world [''999'', ''1499'']) ''<html>'' ''u'') = Some ''999'' \<and>
   price (parse_product_page (sample_world [''999'', ''1499'']) ''<html>'' ''u'') = Some ''1499'' \<and>
   price_elements (soup (sample_world [''1499'']) ''<html>'') = [''1499''] \<and>
   price (parse_product_page (sample_world [''1499'']) ''<html>'' ''u'') = Some ''1499'' \<and>
   old_price (parse_product_page (sample_world [''1499'']) ''<html>'' ''u'') = None \<and>
   price_elements (soup (sample_world []) ''<html>'') = [] \<and>
   price (parse_product_page (sample_world []) ''<html>'' ''u'') = None \<and>
   old_price (parse_product_page (sample_world []) ''<html>'' ''u'') = None"
  using C8_price_parsing [of "sample_world [''999'', ''1499'']" "''<html>''" "''999''" "''1499''" "[]" "''u''"]
    C8_price_parsing [of "sample_world [''1499'']" "''<html>''" "''1499''" _ _ "''u''"]
    C8_price_parsing [of "sample_world []" "''<html>''" _ _ _ "''u''"]
  by (simp add: sample_world_def sample_dom_def)

end
